theory Spec2Isabelle
  imports Complex_Main
begin

section \<open>Plan: the waypoint list and its splice primitive\<close>

text \<open>
  The repository holds two implementations of the plan: the TypeScript class of
  \<^verbatim>\<open>src/plan.ts\<close> and the older JavaScript class bundled in
  \<^verbatim>\<open>dist/leaflet-routing-machine.js\<close>. Both are embedded; the definitions of the
  bundle carry the suffix \<open>_dist\<close>.

  Indices and counts are JavaScript numbers; the model takes the integers among them
  (\<open>Array.prototype.splice\<close> truncates its first two arguments to integers anyway).
  Firing an event appends it to a log: listeners are registered by the host.
\<close>

type_synonym latLng = "real \<times> real"

record waypoint =
  latLng :: "latLng option"
  name :: "string option"
  allowUTurn :: bool

datatype plan_event =
    WaypointsChanged "waypoint list"
  | WaypointsSpliced int int "waypoint list"

record plan =
  waypoints :: "waypoint list"
  markers :: "latLng option list"
  has_map :: bool
  events :: "plan_event list"

text \<open>
  \<open>Array.prototype.splice(start, deleteCount, ...items)\<close> on integers: a negative start
  counts from the end, a start past the end appends, the delete count is clamped to what
  is there.
\<close>

definition splice_array :: "'a list \<Rightarrow> int \<Rightarrow> int \<Rightarrow> 'a list \<Rightarrow> 'a list" where
  "splice_array xs start deleteCount items =
     (let len = int (length xs);
          actualStart = (if start < 0 then max (len + start) 0 else min start len);
          actualDeleteCount = min (max deleteCount 0) (len - actualStart)
      in take (nat actualStart) xs @ items @ drop (nat (actualStart + actualDeleteCount)) xs)"

definition fire :: "plan_event \<Rightarrow> plan \<Rightarrow> plan" where
  "fire e p = p\<lparr>events := events p @ [e]\<rparr>"

definition getWaypoints :: "plan \<Rightarrow> waypoint list" where
  "getWaypoints p = waypoints p"

subsection \<open>src/plan.ts\<close>

text \<open>
  \<open>updateMarkers\<close> with the default \<open>createMarker\<close>: without a map nothing happens,
  otherwise all markers are dropped and one is made for each waypoint that has a position.
\<close>

definition updateMarkers :: "plan \<Rightarrow> plan" where
  "updateMarkers p =
     (if \<not> has_map p then p
      else p\<lparr>markers := map latLng (filter (\<lambda>w. latLng w \<noteq> None) (waypoints p))\<rparr>)"

text \<open>
  \<open>fireChanged(startIndex?, deleteCount?, ...newWaypoints)\<close>: the start index is
  \<open>None\<close> when the call passes no argument; \<open>if (startIndex)\<close> is the truthiness of
  a number.
\<close>

definition truthy_number :: "int option \<Rightarrow> bool" where
  "truthy_number n = (case n of None \<Rightarrow> False | Some i \<Rightarrow> i \<noteq> 0)"

definition fireChanged :: "int option \<Rightarrow> int \<Rightarrow> waypoint list \<Rightarrow> plan \<Rightarrow> plan" where
  "fireChanged startIndex deleteCount newWaypoints p =
     (let p1 = fire (WaypointsChanged (getWaypoints p)) p
      in if truthy_number startIndex
         then fire (WaypointsSpliced (the startIndex) deleteCount newWaypoints) p1
         else p1)"

text \<open>
  \<open>spliceWaypoints\<close> calls itself from inside its \<open>while\<close> loop, so the method and
  the loop are the two entry points of one recursive function; a call that does not
  return has the value \<open>None\<close>.
\<close>

datatype plan_call = SpliceWaypoints int int "waypoint list" | EnforceLoop

partial_function (option) plan_run :: "plan_call \<Rightarrow> plan \<Rightarrow> plan option" where
  "plan_run c p =
     (case c of
        SpliceWaypoints startIndex deleteCount newWaypoints \<Rightarrow>
          Option.bind
            (plan_run EnforceLoop
               (p\<lparr>waypoints := splice_array (waypoints p) startIndex deleteCount newWaypoints\<rparr>))
            (\<lambda>p'. Some (fireChanged (Some startIndex) deleteCount newWaypoints (updateMarkers p')))
      | EnforceLoop \<Rightarrow>
          if length (waypoints p) < 2
          then Option.bind (plan_run (SpliceWaypoints (int (length (waypoints p))) 0 []) p)
                 (plan_run EnforceLoop)
          else Some p)"

definition spliceWaypoints :: "plan \<Rightarrow> int \<Rightarrow> int \<Rightarrow> waypoint list \<Rightarrow> plan option" where
  "spliceWaypoints p startIndex deleteCount newWaypoints =
     plan_run (SpliceWaypoints startIndex deleteCount newWaypoints) p"

definition setWaypoints :: "plan \<Rightarrow> waypoint list \<Rightarrow> plan option" where
  "setWaypoints p ws = spliceWaypoints p 0 (int (length (waypoints p))) ws"

subsection \<open>dist/leaflet-routing-machine.js\<close>

text \<open>
  The bundle's \<open>spliceWaypoints\<close> accepts waypoints, bare positions and \<open>null\<close>, and
  wraps what is not a waypoint in \<open>new Waypoint(...)\<close>.
\<close>

datatype waypoint_arg = AWaypoint waypoint | ALatLng latLng | ANull

definition new_Waypoint :: "latLng option \<Rightarrow> waypoint" where
  "new_Waypoint l = \<lparr>latLng = l, name = None, allowUTurn = False\<rparr>"

fun toWaypoint :: "waypoint_arg \<Rightarrow> waypoint" where
  "toWaypoint (AWaypoint w) = w"
| "toWaypoint (ALatLng l) = new_Waypoint (Some l)"
| "toWaypoint ANull = new_Waypoint None"

definition updateMarkers_dist :: "plan \<Rightarrow> plan" where
  "updateMarkers_dist p =
     (if \<not> has_map p then p else p\<lparr>markers := map latLng (waypoints p)\<rparr>)"

text \<open>
  \<open>_fireChanged\<close> looks at \<open>arguments.length\<close>: \<open>None\<close> stands for a call with fewer
  than two arguments, \<open>Some (index, nRemoved, added)\<close> for a call with at least two.
\<close>

definition fireChanged_dist :: "(int \<times> int \<times> waypoint list) option \<Rightarrow> plan \<Rightarrow> plan" where
  "fireChanged_dist args p =
     (let p1 = fire (WaypointsChanged (getWaypoints p)) p
      in case args of
           Some (index, nRemoved, added) \<Rightarrow> fire (WaypointsSpliced index nRemoved added) p1
         | None \<Rightarrow> p1)"

datatype plan_call_dist = SpliceWaypoints_dist int int "waypoint_arg list" | EnforceLoop_dist

partial_function (option) plan_run_dist :: "plan_call_dist \<Rightarrow> plan \<Rightarrow> plan option" where
  "plan_run_dist c p =
     (case c of
        SpliceWaypoints_dist a0 a1 rest \<Rightarrow>
          (let args = (a0, a1, map toWaypoint rest)
           in Option.bind
                (plan_run_dist EnforceLoop_dist
                   (p\<lparr>waypoints := splice_array (waypoints p) a0 a1 (map toWaypoint rest)\<rparr>))
                (\<lambda>p'. Some (fireChanged_dist (Some args) (updateMarkers_dist p'))))
      | EnforceLoop_dist \<Rightarrow>
          if length (waypoints p) < 2
          then Option.bind
                 (plan_run_dist (SpliceWaypoints_dist (int (length (waypoints p))) 0 [ANull]) p)
                 (plan_run_dist EnforceLoop_dist)
          else Some p)"

definition spliceWaypoints_dist ::
    "plan \<Rightarrow> int \<Rightarrow> int \<Rightarrow> waypoint_arg list \<Rightarrow> plan option" where
  "spliceWaypoints_dist p a0 a1 rest = plan_run_dist (SpliceWaypoints_dist a0 a1 rest) p"

definition setWaypoints_dist :: "plan \<Rightarrow> waypoint_arg list \<Rightarrow> plan option" where
  "setWaypoints_dist p ws = spliceWaypoints_dist p 0 (int (length (waypoints p))) ws"

text \<open>Sample data for the concrete runs below.\<close>

definition wp_A :: waypoint where
  "wp_A = \<lparr>latLng = Some (57.74, 11.94), name = Some ''A'', allowUTurn = False\<rparr>"

definition wp_B :: waypoint where
  "wp_B = \<lparr>latLng = Some (57.6792, 11.949), name = Some ''B'', allowUTurn = False\<rparr>"

definition plan_AB :: plan where
  "plan_AB = \<lparr>waypoints = [wp_A, wp_B], markers = [], has_map = False, events = []\<rparr>"

definition plan_empty :: plan where
  "plan_empty = \<lparr>waypoints = [], markers = [], has_map = False, events = []\<rparr>"

text \<open>
  The calls of \<open>plan_run\<close> that can never return: a splice that leaves fewer than two
  waypoints, and the loop entered with fewer than two.
\<close>

fun stuck :: "plan_call \<Rightarrow> plan \<Rightarrow> bool" where
  "stuck (SpliceWaypoints s d new) p = (length (splice_array (waypoints p) s d new) < 2)"
| "stuck EnforceLoop p = (length (waypoints p) < 2)"

section \<open>JavaScript values, exceptions and lookup tables\<close>

text \<open>
  An exception is a value. Tables loaded from JSON (the instruction phrases) are values
  of \<open>jv\<close>; reading a property of \<open>undefined\<close> throws a \<open>TypeError\<close>, reading a
  missing property gives \<open>undefined\<close>. The tables of the bundle have no duplicate keys.
\<close>

datatype js_error = TypeError string | Error string | CallbackThrew

datatype jv = JUndef | JStr string | JBool bool | JObj "(string \<times> jv) list"

fun property :: "jv \<Rightarrow> string \<Rightarrow> js_error + jv" where
  "property JUndef k = Inl (TypeError ''Cannot read properties of undefined'')"
| "property (JObj kvs) k = Inr (case map_of kvs k of None \<Rightarrow> JUndef | Some v \<Rightarrow> v)"
| "property (JStr s) k = Inr JUndef"
| "property (JBool b) k = Inr JUndef"

fun path :: "jv \<Rightarrow> string list \<Rightarrow> js_error + jv" where
  "path v [] = Inr v"
| "path v (k # ks) = (case property v k of Inl e \<Rightarrow> Inl e | Inr w \<Rightarrow> path w ks)"

fun truthy :: "jv \<Rightarrow> bool" where
  "truthy JUndef = False"
| "truthy (JStr s) = (s \<noteq> [])"
| "truthy (JBool b) = b"
| "truthy (JObj kvs) = True"

text \<open>
  A property that an object does not have itself is looked up in its prototype. The
  tables and the token object are plain objects, whose prototype is
  \<open>Object.prototype\<close>: a read with one of the keys below finds the member inherited
  from there (for \<open>constructor\<close> the function \<open>Object\<close>, for \<open>__proto__\<close>
  \<open>Object.prototype\<close> itself, else a method), and not \<open>undefined\<close>. The reads of
  \<open>property\<close> and \<open>path\<close> above are used where the keys that follow are fixed
  (\<open>constants\<close>, \<open>direction\<close>, \<open>meta\<close>): no built-in object and no
  primitive value has a member of these names, so a read that leaves the table ends in
  the same \<open>TypeError\<close>, a step or two later.
\<close>

definition object_prototype_keys :: "string list" where
  "object_prototype_keys =
     [''constructor'', ''__defineGetter__'', ''__defineSetter__'', ''hasOwnProperty'',
      ''__lookupGetter__'', ''__lookupSetter__'', ''isPrototypeOf'', ''propertyIsEnumerable'',
      ''toString'', ''valueOf'', ''__proto__'', ''toLocaleString'']"

text \<open>
  What a read can give: a value of a table, or a built-in object of the runtime.
  \<open>Builtin k\<close> with \<open>k\<close> among the keys above is the member \<open>k\<close> that plain
  objects inherit. What the members of a built-in object or of a primitive value are is
  up to the runtime, which is a parameter: \<open>rt v k\<close> is the outcome of reading
  \<open>v[k]\<close> for such a \<open>v\<close>.
\<close>

datatype val = Data jv | Builtin string

type_synonym runtime = "val \<Rightarrow> string \<Rightarrow> js_error + val"

definition object_prototype_member :: "string \<Rightarrow> val" where
  "object_prototype_member k =
     (if k \<in> set object_prototype_keys then Builtin k else Data JUndef)"

fun read_property :: "runtime \<Rightarrow> val \<Rightarrow> string \<Rightarrow> js_error + val" where
  "read_property rt (Data JUndef) k = Inl (TypeError ''Cannot read properties of undefined'')"
| "read_property rt (Data (JObj kvs)) k =
     Inr (case map_of kvs k of Some v \<Rightarrow> Data v | None \<Rightarrow> object_prototype_member k)"
| "read_property rt (Data (JStr s)) k = rt (Data (JStr s)) k"
| "read_property rt (Data (JBool b)) k = rt (Data (JBool b)) k"
| "read_property rt (Builtin b) k = rt (Builtin b) k"

fun read_path :: "runtime \<Rightarrow> val \<Rightarrow> string list \<Rightarrow> js_error + val" where
  "read_path rt v [] = Inr v"
| "read_path rt v (k # ks) =
     (case read_property rt v k of Inl e \<Rightarrow> Inl e | Inr w \<Rightarrow> read_path rt w ks)"

fun truthy_val :: "val \<Rightarrow> bool" where
  "truthy_val (Data v) = truthy v"
| "truthy_val (Builtin b) = True"

text \<open>
  \<open>Math.round\<close> rounds to the nearest integer, a half upwards; \<open>%\<close> is the remainder
  of the truncated division and has the sign of the dividend. Numbers are exact here:
  for whole degrees the quotient by 45 is never within rounding error of a half.
\<close>

definition Math_round :: "real \<Rightarrow> int" where
  "Math_round x = \<lfloor>x + 1 / 2\<rfloor>"

definition js_rem :: "int \<Rightarrow> int \<Rightarrow> int" where
  "js_rem a b = sgn a * (\<bar>a\<bar> mod \<bar>b\<bar>)"

section \<open>Compass directions\<close>

text \<open>
  \<open>_bearingToDirection\<close> of the OSRM client: an index outside the array reads
  \<open>undefined\<close>, here \<open>None\<close>.
\<close>

definition compass_points :: "string list" where
  "compass_points = [''N'', ''NE'', ''E'', ''SE'', ''S'', ''SW'', ''W'', ''NW'']"

definition bearingToDirection :: "real \<Rightarrow> string option" where
  "bearingToDirection bearing =
     (let oct = js_rem (Math_round (bearing / 45)) 8
      in if 0 \<le> oct \<and> oct < 8 then Some (compass_points ! nat oct) else None)"

text \<open>
  \<open>directionFromDegree\<close> of the text-instruction compiler; \<open>instructions\<close> is the
  table of all languages and \<open>version\<close> the version key the module was created with.
  A degree that is \<open>undefined\<close> is \<open>None\<close>.
\<close>

definition direction_word :: "jv \<Rightarrow> string \<Rightarrow> string \<Rightarrow> string \<Rightarrow> js_error + jv" where
  "direction_word instructions version language key =
     path instructions [language, version, ''constants'', ''direction'', key]"

definition directionFromDegree ::
    "jv \<Rightarrow> string \<Rightarrow> string \<Rightarrow> real option \<Rightarrow> js_error + jv" where
  "directionFromDegree instructions version language degree =
     (if language = [] then Inl (Error ''No language code provided'')
      else case degree of
        None \<Rightarrow> Inr (JStr [])
      | Some d \<Rightarrow>
          if d \<ge> 0 \<and> d \<le> 20 then direction_word instructions version language ''north''
          else if d > 20 \<and> d < 70 then direction_word instructions version language ''northeast''
          else if d \<ge> 70 \<and> d \<le> 110 then direction_word instructions version language ''east''
          else if d > 110 \<and> d < 160 then direction_word instructions version language ''southeast''
          else if d \<ge> 160 \<and> d \<le> 200 then direction_word instructions version language ''south''
          else if d > 200 \<and> d < 250 then direction_word instructions version language ''southwest''
          else if d \<ge> 250 \<and> d \<le> 290 then direction_word instructions version language ''west''
          else if d > 290 \<and> d < 340 then direction_word instructions version language ''northwest''
          else if d \<ge> 340 \<and> d \<le> 360 then direction_word instructions version language ''north''
          else Inl (Error ''Degree invalid''))"

text \<open>
  The part of the bundled English table (\<open>languages/translations/en.json\<close>) that the
  concrete runs below read.
\<close>

definition en_rotary :: jv where
  "en_rotary = JObj
     [(''default'', JObj
        [(''default'', JObj
           [(''default'', JStr ''Enter the roundabout''),
            (''name'', JStr ''Enter the roundabout and exit onto {way_name}''),
            (''destination'', JStr ''Enter the roundabout and exit towards {destination}'')]),
         (''name'', JObj
           [(''default'', JStr ''Enter {rotary_name}''),
            (''name'', JStr ''Enter {rotary_name} and exit onto {way_name}''),
            (''destination'', JStr ''Enter {rotary_name} and exit towards {destination}'')]),
         (''exit'', JObj
           [(''default'', JStr ''Enter the roundabout and take the {exit_number} exit''),
            (''name'', JStr ''Enter the roundabout and take the {exit_number} exit onto {way_name}''),
            (''destination'',
               JStr ''Enter the roundabout and take the {exit_number} exit towards {destination}'')]),
         (''name_exit'', JObj
           [(''default'', JStr ''Enter {rotary_name} and take the {exit_number} exit''),
            (''name'', JStr ''Enter {rotary_name} and take the {exit_number} exit onto {way_name}''),
            (''destination'',
               JStr ''Enter {rotary_name} and take the {exit_number} exit towards {destination}'')])])]"

definition en_roundabout :: jv where
  "en_roundabout = JObj
     [(''default'', JObj
        [(''exit'', JObj
           [(''default'', JStr ''Enter the roundabout and take the {exit_number} exit''),
            (''name'', JStr ''Enter the roundabout and take the {exit_number} exit onto {way_name}''),
            (''destination'',
               JStr ''Enter the roundabout and take the {exit_number} exit towards {destination}'')]),
         (''default'', JObj
           [(''default'', JStr ''Enter the roundabout''),
            (''name'', JStr ''Enter the roundabout and exit onto {way_name}''),
            (''destination'', JStr ''Enter the roundabout and exit towards {destination}'')])])]"

definition en_v5 :: jv where
  "en_v5 = JObj
     [(''constants'', JObj
        [(''direction'', JObj
           [(''north'', JStr ''north''), (''northeast'', JStr ''northeast''),
            (''east'', JStr ''east''), (''southeast'', JStr ''southeast''),
            (''south'', JStr ''south''), (''southwest'', JStr ''southwest''),
            (''west'', JStr ''west''), (''northwest'', JStr ''northwest'')])]),
      (''modes'', JObj
        [(''ferry'', JObj
           [(''default'', JStr ''Take the ferry''),
            (''name'', JStr ''Take the ferry {way_name}''),
            (''destination'', JStr ''Take the ferry towards {destination}'')])]),
      (''rotary'', en_rotary),
      (''roundabout'', en_roundabout)]"

definition instructions_en :: jv where
  "instructions_en = JObj
     [(''en'', JObj [(''meta'', JObj [(''capitalizeFirstLetter'', JBool True)]), (''v5'', en_v5)])]"

section \<open>The OSRM client (osrm-v1)\<close>

subsection \<open>The service response\<close>

record maneuver =
  mtype :: "string option"
  modifier :: "string option"
  exit_number :: "int option"
  bearing_after :: "real option"

text \<open>
  A step of the response, with the fields that the client and the text compiler read.
  \<open>lanes\<close> is \<open>intersections[0].lanes\<close>, each lane given by its \<open>valid\<close> flag.
\<close>

record step =
  geometry :: string
  maneuver :: "maneuver option"
  distance :: real
  duration :: real
  step_name :: "string option"
  mode :: "string option"
  driving_side :: "string option"
  rotary_name :: "string option"
  lanes :: "bool list option"

record leg =
  summary :: "string option"
  steps :: "step list"

record responseRoute =
  route_distance :: real
  route_duration :: real
  route_geometry :: "string option"
  legs :: "leg list"

record responseWaypoint =
  location :: "real \<times> real"
  hint :: "string option"

record response =
  code :: string
  response_waypoints :: "responseWaypoint list"
  routes :: "responseRoute list"

subsection \<open>Converted routes\<close>

record instruction =
  itype :: string
  idistance :: real
  itime :: real
  road :: "string option"
  direction :: "string option"
  iexit :: "int option"
  iindex :: nat
  imode :: "string option"
  imodifier :: "string option"
  itext :: string

record route =
  route_name :: string
  coordinates :: "latLng list"
  instructions :: "instruction list"
  totalDistance :: real
  totalTime :: real
  waypointIndices :: "nat list option"

record full_route = route +
  inputWaypoints :: "waypoint list"
  actualWaypoints :: "waypoint list"
  isSimplified :: bool

text \<open>
  What the client is configured with: the polyline codec (\<open>polyline.decode\<close> at the
  configured precision) and the function that renders a step as text, which is the
  option \<open>stepToText\<close> or else the text compiler; it gets the step, \<open>legCount\<close> and
  \<open>legIndex\<close>, and may throw.
\<close>

record osrm_options =
  decodePolyline :: "string \<Rightarrow> latLng list"
  stepToText :: "step \<Rightarrow> nat \<Rightarrow> nat \<Rightarrow> js_error + string"

subsection \<open>Strings\<close>

text \<open>
  \<open>toUpperCase\<close> on the letters a to z; the maneuver vocabulary of the service is
  ASCII.
\<close>

definition toUpperCase_char :: "char \<Rightarrow> char" where
  "toUpperCase_char c =
     (case map_of (zip ''abcdefghijklmnopqrstuvwxyz'' ''ABCDEFGHIJKLMNOPQRSTUVWXYZ'') c of
        None \<Rightarrow> c | Some u \<Rightarrow> u)"

definition capitalize_ascii :: "string \<Rightarrow> string" where
  "capitalize_ascii s = map toUpperCase_char (take 1 s) @ drop 1 s"

fun split_on :: "char \<Rightarrow> string \<Rightarrow> string list" where
  "split_on sep [] = [[]]"
| "split_on sep (c # cs) =
     (if c = sep then [] # split_on sep cs
      else (case split_on sep cs of w # ws \<Rightarrow> (c # w) # ws | [] \<Rightarrow> [[c]]))"

fun starts_with :: "string \<Rightarrow> string \<Rightarrow> bool" where
  "starts_with s [] = True"
| "starts_with [] (p # ps) = False"
| "starts_with (c # cs) (p # ps) = (c = p \<and> starts_with cs ps)"

fun indexOf_found :: "string \<Rightarrow> string \<Rightarrow> bool" where
  "indexOf_found [] p = (p = [])"
| "indexOf_found (c # cs) p = (starts_with (c # cs) p \<or> indexOf_found cs p)"

definition camelCase :: "string \<Rightarrow> string" where
  "camelCase s = concat (map capitalize_ascii (split_on CHR '' '' s))"

definition leftOrRight :: "string \<Rightarrow> string" where
  "leftOrRight d = (if indexOf_found d ''left'' then ''Left'' else ''Right'')"

subsection \<open>Maneuvers\<close>

definition maneuverToInstructionType :: "maneuver option \<Rightarrow> bool \<Rightarrow> js_error + string" where
  "maneuverToInstructionType m lastLeg =
     (case m of
        None \<Rightarrow> Inl (TypeError ''type'')
      | Some mv \<Rightarrow>
          if mtype mv = Some ''new name'' then Inr ''Continue''
          else if mtype mv = Some ''depart'' then Inr ''Head''
          else if mtype mv = Some ''arrive''
            then Inr (if lastLeg then ''DestinationReached'' else ''WaypointReached'')
          else if mtype mv = Some ''roundabout'' \<or> mtype mv = Some ''rotary''
            then Inr ''Roundabout''
          else if mtype mv \<in> {Some ''merge'', Some ''fork'', Some ''on ramp'', Some ''off ramp'',
                              Some ''end of road''}
            then Inr (camelCase (the (mtype mv)))
          else (case modifier mv of
                  None \<Rightarrow> Inl (TypeError ''split'')
                | Some md \<Rightarrow> Inr (camelCase md)))"

definition maneuverToModifier :: "maneuver option \<Rightarrow> js_error + string option" where
  "maneuverToModifier m =
     (case m of
        None \<Rightarrow> Inl (TypeError ''modifier'')
      | Some mv \<Rightarrow>
          if mtype mv \<in> {Some ''merge'', Some ''fork'', Some ''on ramp'', Some ''off ramp'',
                          Some ''end of road''}
          then (case modifier mv of
                  None \<Rightarrow> Inl (TypeError ''indexOf'')
                | Some md \<Rightarrow> Inr (Some (camelCase (leftOrRight md))))
          else (case modifier mv of
                  None \<Rightarrow> Inr None
                | Some md \<Rightarrow> Inr (if md = [] then Some [] else Some (camelCase md))))"

subsection \<open>_convertRoute\<close>

record conversion =
  c_coordinates :: "latLng list"
  c_instructions :: "instruction list"
  c_waypointIndices :: "nat list"
  c_index :: nat
  c_legNames :: "string option list"

definition is_type :: "step \<Rightarrow> string \<Rightarrow> bool" where
  "is_type st t = (case maneuver st of None \<Rightarrow> False | Some mv \<Rightarrow> mtype mv = Some t)"

fun convert_steps ::
    "osrm_options \<Rightarrow> nat \<Rightarrow> nat \<Rightarrow> step list \<Rightarrow> conversion \<Rightarrow> js_error + conversion" where
  "convert_steps opts legCount i [] acc = Inr acc"
| "convert_steps opts legCount i (st # sts) acc =
     (let geom = decodePolyline opts (geometry st) in
      case maneuverToInstructionType (maneuver st) (int i = int legCount - 1) of
        Inl e \<Rightarrow> Inl e
      | Inr type \<Rightarrow>
      case maneuverToModifier (maneuver st) of
        Inl e \<Rightarrow> Inl e
      | Inr modif \<Rightarrow>
      case stepToText opts st legCount i of
        Inl e \<Rightarrow> Inl e
      | Inr txt \<Rightarrow>
          convert_steps opts legCount i sts
            (acc\<lparr>c_coordinates := c_coordinates acc @ geom,
                 c_waypointIndices :=
                   (if type \<noteq> [] \<and> ((i = 0 \<and> is_type st ''depart'') \<or> is_type st ''arrive'')
                    then c_waypointIndices acc @ [c_index acc]
                    else c_waypointIndices acc),
                 c_instructions :=
                   (if type \<noteq> []
                    then c_instructions acc @
                      [\<lparr>itype = type, idistance = distance st, itime = duration st,
                        road = step_name st,
                        direction = (case bearing_after (the (maneuver st)) of
                                       None \<Rightarrow> None | Some b \<Rightarrow> bearingToDirection b),
                        iexit = exit_number (the (maneuver st)),
                        iindex = c_index acc, imode = mode st, imodifier = modif, itext = txt\<rparr>]
                    else c_instructions acc),
                 c_index := c_index acc + length geom\<rparr>))"

fun convert_legs ::
    "osrm_options \<Rightarrow> nat \<Rightarrow> nat \<Rightarrow> leg list \<Rightarrow> conversion \<Rightarrow> js_error + conversion" where
  "convert_legs opts legCount i [] acc = Inr acc"
| "convert_legs opts legCount i (l # ls) acc =
     (case convert_steps opts legCount i (steps l)
             (acc\<lparr>c_legNames := c_legNames acc @
                 [case summary l of None \<Rightarrow> None
                  | Some s \<Rightarrow> Some (if s = [] then [] else capitalize_ascii s)]\<rparr>) of
        Inl e \<Rightarrow> Inl e
      | Inr acc' \<Rightarrow> convert_legs opts legCount (Suc i) ls acc')"

fun join :: "string \<Rightarrow> string list \<Rightarrow> string" where
  "join sep [] = []"
| "join sep [x] = x"
| "join sep (x # y # ys) = x @ sep @ join sep (y # ys)"

definition convertRoute :: "osrm_options \<Rightarrow> responseRoute \<Rightarrow> js_error + route" where
  "convertRoute opts responseRoute =
     (case legs responseRoute of
        [] \<Rightarrow> Inl (TypeError ''steps'')
      | leg0 # _ \<Rightarrow>
          let hasSteps = (steps leg0 \<noteq> []) in
          case convert_legs opts (length (legs responseRoute)) 0 (legs responseRoute)
                 \<lparr>c_coordinates = [], c_instructions = [], c_waypointIndices = [],
                  c_index = 0, c_legNames = []\<rparr> of
            Inl e \<Rightarrow> Inl e
          | Inr acc \<Rightarrow>
              let result = \<lparr>route_name = join '', '' (map (\<lambda>n. case n of None \<Rightarrow> [] | Some s \<Rightarrow> s)
                                                    (c_legNames acc)),
                            coordinates = c_coordinates acc,
                            instructions = c_instructions acc,
                            totalDistance = route_distance responseRoute,
                            totalTime = route_duration responseRoute,
                            waypointIndices = None\<rparr>
              in if \<not> hasSteps
                 then (case route_geometry responseRoute of
                         None \<Rightarrow> Inl (TypeError ''length'')
                       | Some g \<Rightarrow> Inr (result\<lparr>coordinates := decodePolyline opts g\<rparr>))
                 else Inr (result\<lparr>waypointIndices := Some (c_waypointIndices acc)\<rparr>))"

text \<open>
  The waypoint indices in the words of the specification: walking over the steps of all
  legs in order, with the number of coordinates decoded so far as running offset, the
  offset is recorded at each step that is a \<open>depart\<close> on the first leg or an \<open>arrive\<close>.
\<close>

definition coordinate_count :: "(string \<Rightarrow> latLng list) \<Rightarrow> step list \<Rightarrow> nat" where
  "coordinate_count decode sts = sum_list (map (\<lambda>st. length (decode (geometry st))) sts)"

fun recorded_in_steps :: "(string \<Rightarrow> latLng list) \<Rightarrow> nat \<Rightarrow> nat \<Rightarrow> step list \<Rightarrow> nat list" where
  "recorded_in_steps decode i offset [] = []"
| "recorded_in_steps decode i offset (st # sts) =
     (if (i = 0 \<and> is_type st ''depart'') \<or> is_type st ''arrive'' then [offset] else []) @
     recorded_in_steps decode i (offset + length (decode (geometry st))) sts"

fun recorded_in_legs :: "(string \<Rightarrow> latLng list) \<Rightarrow> nat \<Rightarrow> nat \<Rightarrow> leg list \<Rightarrow> nat list" where
  "recorded_in_legs decode i offset [] = []"
| "recorded_in_legs decode i offset (l # ls) =
     recorded_in_steps decode i offset (steps l) @
     recorded_in_legs decode (Suc i) (offset + coordinate_count decode (steps l)) ls"

text \<open>Sample data: a one-leg route with a departure and an arrival.\<close>

definition sample_decode :: "string \<Rightarrow> latLng list" where
  "sample_decode s =
     (if s = ''_p~iF~ps|U'' then [(38.5, -120.2)]
      else if s = ''_p~iF~ps|U_ulLnnqC'' then [(38.5, -120.2), (40.7, -120.95)]
      else [])"

definition sample_options :: osrm_options where
  "sample_options = \<lparr>decodePolyline = sample_decode, stepToText = (\<lambda>st n i. Inr [])\<rparr>"

definition step_depart :: step where
  "step_depart =
     \<lparr>geometry = ''_p~iF~ps|U_ulLnnqC'',
      maneuver = Some \<lparr>mtype = Some ''depart'', modifier = None, exit_number = None,
                       bearing_after = Some 44\<rparr>,
      distance = 100, duration = 10, step_name = Some ''Main St'', mode = Some ''driving'',
      driving_side = Some ''right'', rotary_name = None, lanes = None\<rparr>"

definition step_arrive :: "string \<Rightarrow> step" where
  "step_arrive g =
     \<lparr>geometry = g,
      maneuver = Some \<lparr>mtype = Some ''arrive'', modifier = None, exit_number = None,
                       bearing_after = Some 0\<rparr>,
      distance = 0, duration = 0, step_name = Some ''Main St'', mode = Some ''driving'',
      driving_side = Some ''right'', rotary_name = None, lanes = None\<rparr>"

definition sample_route :: "string \<Rightarrow> responseRoute" where
  "sample_route g =
     \<lparr>route_distance = 100, route_duration = 10, route_geometry = None,
      legs = [\<lparr>summary = Some ''main St'', steps = [step_depart, step_arrive g]\<rparr>]\<rparr>"

subsection \<open>_routeDone\<close>

text \<open>
  The error object handed to the callback. Its status is a number chosen by the client
  or the code of the service; the message is kept structured instead of being
  concatenated into text.
\<close>

datatype status = StatusNumber int | StatusCode string

record transport_error =
  err_type :: "string option"
  http_status :: "(int \<times> string) option"
  server_message :: "string option"

datatype err_message =
    Text string
  | HttpRequestFailed transport_error
  | ErrorParsing js_error
  | ToString js_error

record callback_error =
  status :: status
  message :: "err_message option"

type_synonym callback_args = "callback_error option \<times> full_route list option"

record routing_options =
  geometryOnly :: bool
  simplifyGeometry :: bool

text \<open>
  The state of one request: the flag \<open>timedOut\<close>, whether the timer is still pending,
  how often \<open>xhr.abort()\<close> was called, the invocations of the callback so far, and the
  client's hint cache.
\<close>

record request_state =
  timedOut :: bool
  timer_pending :: bool
  aborts :: nat
  calls :: "callback_args list"
  hints :: "latLng \<rightharpoonup> string option"

text \<open>
  Calling the callback records the call; \<open>cb_throws\<close> tells for which arguments the
  callback itself throws.
\<close>

definition invoke ::
    "(callback_args \<Rightarrow> bool) \<Rightarrow> callback_args \<Rightarrow> request_state \<Rightarrow> js_error option \<times> request_state" where
  "invoke cb_throws args st =
     (if cb_throws args then Some CallbackThrew else None, st\<lparr>calls := calls st @ [args]\<rparr>)"

fun toWaypoints :: "waypoint list \<Rightarrow> responseWaypoint list \<Rightarrow> js_error + waypoint list" where
  "toWaypoints inputWps [] = Inr []"
| "toWaypoints [] (v # vias) = Inl (TypeError ''name'')"
| "toWaypoints (w # inputWps) (v # vias) =
     (case toWaypoints inputWps vias of
        Inl e \<Rightarrow> Inl e
      | Inr ws \<Rightarrow>
          Inr (\<lparr>latLng = Some (snd (location v), fst (location v)), name = name w,
                allowUTurn = allowUTurn w\<rparr> # ws))"

text \<open>
  \<open>_saveHintData\<close> empties the cache and walks the response waypoints from the last to
  the first; the list given to \<open>save_hints\<close> is in that order.
\<close>

fun save_hints ::
    "(responseWaypoint \<times> waypoint option) list \<Rightarrow> (latLng \<rightharpoonup> string option) \<Rightarrow>
     js_error option \<times> (latLng \<rightharpoonup> string option)" where
  "save_hints [] h = (None, h)"
| "save_hints ((v, None) # rest) h = (Some (TypeError ''latLng''), h)"
| "save_hints ((v, Some w) # rest) h =
     (case latLng w of
        None \<Rightarrow> (Some (TypeError ''lat''), h)
      | Some l \<Rightarrow> save_hints rest (h(l \<mapsto> hint v)))"

definition nth_opt :: "'a list \<Rightarrow> nat \<Rightarrow> 'a option" where
  "nth_opt xs i = (if i < length xs then Some (xs ! i) else None)"

definition saveHintData ::
    "responseWaypoint list \<Rightarrow> waypoint list \<Rightarrow> js_error option \<times> (latLng \<rightharpoonup> string option)" where
  "saveHintData actual wps =
     save_hints (rev (map (\<lambda>i. (actual ! i, nth_opt wps i)) [0..<length actual])) Map.empty"

fun convert_all :: "osrm_options \<Rightarrow> responseRoute list \<Rightarrow> js_error + route list" where
  "convert_all opts [] = Inr []"
| "convert_all opts (r # rs) =
     (case convertRoute opts r of
        Inl e \<Rightarrow> Inl e
      | Inr x \<Rightarrow> (case convert_all opts rs of Inl e \<Rightarrow> Inl e | Inr xs \<Rightarrow> Inr (x # xs)))"

definition routeDone ::
    "osrm_options \<Rightarrow> (callback_args \<Rightarrow> bool) \<Rightarrow> response \<Rightarrow> waypoint list \<Rightarrow> routing_options \<Rightarrow>
     request_state \<Rightarrow> js_error option \<times> request_state" where
  "routeDone opts cb_throws resp inputWps ropts st =
     (if code resp \<noteq> ''Ok''
      then invoke cb_throws (Some \<lparr>status = StatusCode (code resp), message = None\<rparr>, None) st
      else
        case toWaypoints inputWps (response_waypoints resp) of
          Inl e \<Rightarrow> (Some e, st)
        | Inr actual \<Rightarrow>
        case convert_all opts (routes resp) of
          Inl e \<Rightarrow> (Some e, st)
        | Inr rs \<Rightarrow>
            let alts = map (\<lambda>r. route.extend r
                          \<lparr>inputWaypoints = inputWps, actualWaypoints = actual,
                           isSimplified = (\<not> geometryOnly ropts \<or> simplifyGeometry ropts)\<rparr>) rs;
                (ex, h) = saveHintData (response_waypoints resp) inputWps;
                st1 = st\<lparr>hints := h\<rparr>
            in case ex of
                 Some e \<Rightarrow> (Some e, st1)
               | None \<Rightarrow> invoke cb_throws (None, Some alts) st1)"

subsection \<open>route: the timer and the transport\<close>

text \<open>
  \<open>route\<close> arms the timer and sends the request; what happens afterwards is driven by
  two kinds of events. The timer fires only while it is pending. The transport completes
  with a failure, or with a body that \<open>JSON.parse\<close> rejects or accepts.
\<close>

datatype transport_result = Failed transport_error | Loaded "js_error + response"

datatype event = TimerFires | TransportCompletes transport_result

definition route_start :: "(latLng \<rightharpoonup> string option) \<Rightarrow> request_state" where
  "route_start h = \<lparr>timedOut = False, timer_pending = True, aborts = 0, calls = [], hints = h\<rparr>"

definition on_timer :: "(callback_args \<Rightarrow> bool) \<Rightarrow> request_state \<Rightarrow> request_state" where
  "on_timer cb_throws st =
     (if timer_pending st
      then snd (invoke cb_throws
                  (Some \<lparr>status = StatusNumber (- 1),
                         message = Some (Text ''OSRM request timed out.'')\<rparr>, None)
                  (st\<lparr>timedOut := True, timer_pending := False\<rparr>))
      else st)"

definition on_response ::
    "osrm_options \<Rightarrow> (callback_args \<Rightarrow> bool) \<Rightarrow> waypoint list \<Rightarrow> routing_options \<Rightarrow>
     transport_result \<Rightarrow> request_state \<Rightarrow> request_state" where
  "on_response opts cb_throws wps ropts res st =
     (let st1 = st\<lparr>timer_pending := False\<rparr>
      in if \<not> timedOut st1
         then (case res of
                 Loaded (Inr data) \<Rightarrow>
                   (case routeDone opts cb_throws data wps ropts st1 of
                      (None, st2) \<Rightarrow> st2
                    | (Some ex, st2) \<Rightarrow>
                        snd (invoke cb_throws
                               (Some \<lparr>status = StatusNumber (- 3),
                                      message = Some (ToString ex)\<rparr>, None) st2))
               | Loaded (Inl ex) \<Rightarrow>
                   snd (invoke cb_throws
                          (Some \<lparr>status = StatusNumber (- 2),
                                 message = Some (ErrorParsing ex)\<rparr>, None) st1)
               | Failed err \<Rightarrow>
                   snd (invoke cb_throws
                          (Some \<lparr>status = StatusNumber (- 1),
                                 message = Some (HttpRequestFailed err)\<rparr>, None) st1))
         else st1\<lparr>aborts := aborts st1 + 1\<rparr>)"

fun route_event ::
    "osrm_options \<Rightarrow> (callback_args \<Rightarrow> bool) \<Rightarrow> waypoint list \<Rightarrow> routing_options \<Rightarrow>
     event \<Rightarrow> request_state \<Rightarrow> request_state" where
  "route_event opts cb_throws wps ropts TimerFires st = on_timer cb_throws st"
| "route_event opts cb_throws wps ropts (TransportCompletes res) st =
     on_response opts cb_throws wps ropts res st"

definition route_run ::
    "osrm_options \<Rightarrow> (callback_args \<Rightarrow> bool) \<Rightarrow> waypoint list \<Rightarrow> routing_options \<Rightarrow>
     event list \<Rightarrow> request_state \<Rightarrow> request_state" where
  "route_run opts cb_throws wps ropts evs st =
     foldl (\<lambda>s e. route_event opts cb_throws wps ropts e s) st evs"

definition completions :: "event list \<Rightarrow> nat" where
  "completions evs = length (filter (\<lambda>e. e \<noteq> TimerFires) evs)"

text \<open>Sample data: a response without routes, and a callback that throws on success.\<close>

definition response_ok :: response where
  "response_ok = \<lparr>code = ''Ok'', response_waypoints = [], routes = []\<rparr>"

definition response_no_route :: response where
  "response_no_route = \<lparr>code = ''NoRoute'', response_waypoints = [], routes = []\<rparr>"

definition throws_on_success :: "callback_args \<Rightarrow> bool" where
  "throws_on_success args = (fst args = None)"

definition default_routing_options :: routing_options where
  "default_routing_options = \<lparr>geometryOnly = False, simplifyGeometry = False\<rparr>"

section \<open>The routing control: route\<close>

text \<open>
  The control counts its requests. A request is the closure handed to the router: it
  remembers its count \<open>ts\<close>, the options and the waypoints. The router is pluggable, so
  its answer \<open>(err, routes)\<close> arrives as an argument; what the control does with it
  (clearing lines, firing events, calling \<open>options.callback\<close>) is appended to a log.
  \<open>pendingRequest\<close> holds the count of the request whose handle is stored and whether
  that handle has an \<open>abort\<close> method.
\<close>

record routing_error =
  error_type :: "string option"
  error_status :: status

record route_options =
  has_callback :: bool
  opt_geometryOnly :: bool
  opt_waypoints :: "waypoint list option"

datatype 'r control_event =
    RoutingStart "waypoint list"
  | ClearLines
  | ClearAlts
  | RoutingError routing_error
  | RoutesFound "waypoint list" "(nat \<times> 'r) list"
  | SetAlternatives "(nat \<times> 'r) list"
  | RouteSelected "(nat \<times> 'r) option" "(nat \<times> 'r) list"
  | OptionsCallback nat "routing_error option" "'r list option"

record 'r control =
  requestCount :: nat
  pendingRequest :: "(nat \<times> bool) option"
  aborted :: "nat list"
  control_log :: "'r control_event list"

record request =
  req_ts :: nat
  req_options :: route_options
  req_wps :: "waypoint list"

text \<open>
  \<open>route(options)\<close>. \<open>isReady\<close> and \<open>planWaypoints\<close> are what the plan answers;
  \<open>handle\<close> is what the router returns: nothing, or a handle with or without
  \<open>abort\<close>.
\<close>

definition control_route ::
    "route_options \<Rightarrow> bool \<Rightarrow> waypoint list \<Rightarrow> bool option \<Rightarrow> 'r control \<Rightarrow>
     'r control \<times> request option" where
  "control_route options isReady planWaypoints handle c =
     (let ts = requestCount c + 1;
          c1 = c\<lparr>requestCount := ts\<rparr>;
          c2 = (case pendingRequest c1 of
                  Some (h, True) \<Rightarrow> c1\<lparr>aborted := aborted c1 @ [h], pendingRequest := None\<rparr>
                | _ \<Rightarrow> c1)
      in if isReady
         then let wps = (case opt_waypoints options of Some w \<Rightarrow> w | None \<Rightarrow> planWaypoints);
                  c3 = c2\<lparr>control_log := control_log c2 @ [RoutingStart wps]\<rparr>
              in (c3\<lparr>pendingRequest := map_option (\<lambda>a. (ts, a)) handle\<rparr>,
                  Some \<lparr>req_ts = ts, req_options = options, req_wps = wps\<rparr>)
         else (c2, None))"

text \<open>The callback that \<open>route\<close> hands to the router, for the request \<open>r\<close>.\<close>

definition control_callback ::
    "request \<Rightarrow> routing_error option \<Rightarrow> 'r list option \<Rightarrow> 'r control \<Rightarrow>
     js_error option \<times> 'r control" where
  "control_callback r err found c =
     (let c1 = c\<lparr>pendingRequest := None\<rparr>
      in if has_callback (req_options r)
         then (None, c1\<lparr>control_log := control_log c1 @ [OptionsCallback (req_ts r) err found]\<rparr>)
         else if req_ts r = requestCount c1
         then
           let c2 = c1\<lparr>control_log := control_log c1 @ [ClearLines, ClearAlts]\<rparr>
           in if err \<noteq> None \<and> error_type (the err) \<noteq> Some ''abort''
              then (None, c2\<lparr>control_log := control_log c2 @ [RoutingError (the err)]\<rparr>)
              else (case found of
                      None \<Rightarrow> (Some (TypeError ''forEach''), c2)
                    | Some rs \<Rightarrow>
                        let indexed = zip [0..<length rs] rs
                        in if \<not> opt_geometryOnly (req_options r)
                           then (None, c2\<lparr>control_log := control_log c2 @
                                   [RoutesFound (req_wps r) indexed, SetAlternatives indexed]\<rparr>)
                           else (None, c2\<lparr>control_log := control_log c2 @
                                   [RouteSelected (nth_opt indexed 0) (drop 1 indexed)]\<rparr>))
         else (None, c1))"

text \<open>Sample data: a fresh control, plain options and options with a callback.\<close>

definition control_init :: "nat control" where
  "control_init = \<lparr>requestCount = 0, pendingRequest = None, aborted = [], control_log = []\<rparr>"

definition plain_options :: route_options where
  "plain_options = \<lparr>has_callback = False, opt_geometryOnly = False, opt_waypoints = None\<rparr>"

definition drag_options :: route_options where
  "drag_options = \<lparr>has_callback = True, opt_geometryOnly = True, opt_waypoints = None\<rparr>"

definition request_A :: "route_options \<Rightarrow> request" where
  "request_A options = \<lparr>req_ts = 1, req_options = options, req_wps = [wp_A, wp_B]\<rparr>"

text \<open>
  The control after two calls of \<open>route\<close>, the first with a callback in its options,
  with a router whose handles have no \<open>abort\<close>.
\<close>

definition control_after_B :: "nat control" where
  "control_after_B =
     fst (control_route plain_options True [wp_A, wp_B] (Some False)
       (fst (control_route drag_options True [wp_A, wp_B] (Some False) control_init)))"

section \<open>The text-instruction compiler\<close>

definition bind_err :: "js_error + 'a \<Rightarrow> ('a \<Rightarrow> js_error + 'b) \<Rightarrow> js_error + 'b" where
  "bind_err m f = (case m of Inl e \<Rightarrow> Inl e | Inr x \<Rightarrow> f x)"

text \<open>A property key computed from a value that may be \<open>undefined\<close>.\<close>

definition key_of :: "string option \<Rightarrow> string" where
  "key_of k = (case k of None \<Rightarrow> ''undefined'' | Some s \<Rightarrow> s)"

definition truthy_string :: "string option \<Rightarrow> bool" where
  "truthy_string s = (case s of None \<Rightarrow> False | Some t \<Rightarrow> t \<noteq> [])"

fun object_keys :: "jv \<Rightarrow> string list" where
  "object_keys (JObj kvs) = map fst kvs"
| "object_keys v = []"

text \<open>
  The languages module loads \<open>de.json\<close> and \<open>en.json\<close> and nothing else, so
  \<open>supportedCodes\<close>, the keys of the table it builds, is this list.
\<close>

definition supportedCodes :: "string list" where
  "supportedCodes = [''de'', ''en'']"

subsection \<open>compile, up to the choice of the phrase set\<close>

text \<open>
  \<open>laneConfig\<close>: one letter for each run of lanes of the same validity.
\<close>

fun lane_runs :: "bool option \<Rightarrow> bool list \<Rightarrow> string" where
  "lane_runs cur [] = []"
| "lane_runs cur (v # vs) =
     (if cur = None \<or> cur \<noteq> Some v
      then (if v then CHR ''o'' else CHR ''x'') # lane_runs (Some v) vs
      else lane_runs cur vs)"

definition laneConfig :: "step \<Rightarrow> js_error + string" where
  "laneConfig st =
     (case lanes st of
        None \<Rightarrow> Inl (Error ''No lanes object'')
      | Some ls \<Rightarrow> Inr (lane_runs None ls))"

text \<open>
  The first part of \<open>compile\<close>: the checks, the fallback to the type \<open>turn\<close>, and the
  phrase set chosen by the travel mode or else by type and modifier. It yields the type
  and the object that the source calls \<open>instructionObject\<close> at this point. \<open>table\<close>
  is the table of all languages; the mode, the type and the modifier come from the step,
  so these reads can find inherited members.
\<close>

definition select_instructionObject ::
    "runtime \<Rightarrow> jv \<Rightarrow> string \<Rightarrow> string \<Rightarrow> step \<Rightarrow> js_error + (string \<times> val)" where
  "select_instructionObject rt table version language st =
     (if language = [] then Inl (Error ''No language code provided'')
      else if language \<notin> set supportedCodes
        then Inl (Error (''language code '' @ language @ '' not loaded''))
      else case maneuver st of
        None \<Rightarrow> Inl (Error ''No step maneuver provided'')
      | Some m \<Rightarrow>
          if \<not> truthy_string (mtype m) then Inl (Error ''Missing step maneuver type'')
          else if the (mtype m) \<noteq> ''depart'' \<and> the (mtype m) \<noteq> ''arrive'' \<and>
                  \<not> truthy_string (modifier m)
            then Inl (Error ''Missing step maneuver modifier'')
          else
            bind_err (read_path rt (Data table) [language, version]) (\<lambda>v.
            bind_err (read_property rt v (the (mtype m))) (\<lambda>known.
            let type = (if truthy_val known then the (mtype m) else ''turn'') in
            bind_err (read_path rt v [''modes'', key_of (mode st)]) (\<lambda>byMode.
            if truthy_val byMode then Inr (type, byMode)
            else
              let omitSide = (type = ''off ramp'' \<and>
                                indexOf_found (key_of (modifier m)) (key_of (driving_side st))) in
              bind_err (read_path rt v [type, key_of (modifier m)]) (\<lambda>byModifier.
              if truthy_val byModifier \<and> \<not> omitSide then Inr (type, byModifier)
              else bind_err (read_path rt v [type, ''default'']) (\<lambda>d. Inr (type, d)))))))"

text \<open>
  The \<open>rotary\<close>/\<open>roundabout\<close> case of the \<open>switch\<close>: an \<open>if\<close> chain over
  \<open>step.rotary_name\<close>, \<open>step.maneuver.exit\<close> and the variants the phrase set has.
  A property is read only when the conditions to its left are truthy.
\<close>

definition has_rotary_name :: "step \<Rightarrow> bool" where
  "has_rotary_name st = truthy_string (rotary_name st)"

definition has_exit :: "step \<Rightarrow> bool" where
  "has_exit st =
     (case maneuver st of
        None \<Rightarrow> False
      | Some m \<Rightarrow> (case exit_number m of None \<Rightarrow> False | Some n \<Rightarrow> n \<noteq> 0))"

definition rotary_from_exit :: "runtime \<Rightarrow> step \<Rightarrow> val \<Rightarrow> js_error + val" where
  "rotary_from_exit rt st io =
     (if has_exit st
      then bind_err (read_property rt io ''exit'')
             (\<lambda>e. if truthy_val e then Inr e else read_property rt io ''default'')
      else read_property rt io ''default'')"

definition rotary_from_name :: "runtime \<Rightarrow> step \<Rightarrow> val \<Rightarrow> js_error + val" where
  "rotary_from_name rt st io =
     (if has_rotary_name st
      then bind_err (read_property rt io ''name'')
             (\<lambda>n. if truthy_val n then Inr n else rotary_from_exit rt st io)
      else rotary_from_exit rt st io)"

definition rotary_variant :: "runtime \<Rightarrow> step \<Rightarrow> val \<Rightarrow> js_error + val" where
  "rotary_variant rt st io =
     (if has_rotary_name st \<and> has_exit st
      then bind_err (read_property rt io ''name_exit'')
             (\<lambda>ne. if truthy_val ne then Inr ne else rotary_from_name rt st io)
      else rotary_from_name rt st io)"

text \<open>
  The \<open>switch (type)\<close> of \<open>compile\<close>; the result is the phrase set and
  \<open>laneInstruction\<close>. In the lane case the table of lane phrases is read before
  \<open>laneConfig\<close> is called.
\<close>

definition special_case ::
    "runtime \<Rightarrow> jv \<Rightarrow> string \<Rightarrow> string \<Rightarrow> step \<Rightarrow> string \<Rightarrow> val \<Rightarrow> js_error + (val \<times> val)" where
  "special_case rt table version language st type io =
     (if type = ''use lane''
      then bind_err (read_path rt (Data table) [language, version, ''constants'', ''lanes''])
             (\<lambda>laneTable.
           bind_err (laneConfig st) (\<lambda>config.
           bind_err (read_property rt laneTable config) (\<lambda>laneInstruction.
           if \<not> truthy_val laneInstruction
           then bind_err (read_path rt (Data table) [language, version, ''use lane'', ''no_lanes''])
                  (\<lambda>n. Inr (n, laneInstruction))
           else Inr (io, laneInstruction))))
      else if type = ''rotary'' \<or> type = ''roundabout''
      then bind_err (rotary_variant rt st io) (\<lambda>v. Inr (v, Data JUndef))
      else Inr (io, Data JUndef))"

definition compile_instructionObject ::
    "runtime \<Rightarrow> jv \<Rightarrow> string \<Rightarrow> string \<Rightarrow> step \<Rightarrow> js_error + (val \<times> val)" where
  "compile_instructionObject rt table version language st =
     bind_err (select_instructionObject rt table version language st)
       (\<lambda>(type, io). special_case rt table version language st type io)"

text \<open>
  The choice among the four variants as an ordered preference: the first key of the list
  whose condition on the step holds and whose variant the phrase set has, else
  \<open>default\<close>. \<open>code_preference\<close> is the order of the \<open>if\<close> chain,
  \<open>claimed_preference\<close> the order the specification states.
\<close>

definition available :: "runtime \<Rightarrow> val \<Rightarrow> string \<Rightarrow> bool" where
  "available rt io k = (case read_property rt io k of Inl e \<Rightarrow> False | Inr v \<Rightarrow> truthy_val v)"

fun first_available :: "runtime \<Rightarrow> val \<Rightarrow> (bool \<times> string) list \<Rightarrow> string" where
  "first_available rt io [] = ''default''"
| "first_available rt io ((cond, k) # rest) =
     (if cond \<and> available rt io k then k else first_available rt io rest)"

definition code_preference :: "step \<Rightarrow> (bool \<times> string) list" where
  "code_preference st =
     [(has_rotary_name st \<and> has_exit st, ''name_exit''),
      (has_rotary_name st, ''name''),
      (has_exit st, ''exit'')]"

definition claimed_preference :: "step \<Rightarrow> (bool \<times> string) list" where
  "claimed_preference st =
     [(has_rotary_name st \<and> has_exit st, ''name_exit''),
      (has_exit st, ''exit''),
      (has_rotary_name st, ''name'')]"

text \<open>
  The phrase sets that a rotary or roundabout step can reach in \<open>de.json\<close> and
  \<open>en.json\<close>, by their keys: both files have the single mode \<open>ferry\<close> with the
  phrases \<open>default\<close>, \<open>name\<close> and \<open>destination\<close>, the single rotary entry
  \<open>default\<close> with the four variants, and the single roundabout entry \<open>default\<close>
  with the variants \<open>exit\<close> and \<open>default\<close>. \<open>own\<close> reads a property that
  the object has itself.
\<close>

fun own :: "jv \<Rightarrow> string \<Rightarrow> jv" where
  "own (JObj kvs) k = (case map_of kvs k of None \<Rightarrow> JUndef | Some v \<Rightarrow> v)"
| "own v k = JUndef"

definition keys_at :: "jv \<Rightarrow> string list \<Rightarrow> string set" where
  "keys_at v ks = set (object_keys (foldl own v ks))"

definition phrase_sets_as_bundled :: "jv \<Rightarrow> bool" where
  "phrase_sets_as_bundled v =
     (keys_at v [''modes''] = {''ferry''} \<and>
      keys_at v [''modes'', ''ferry''] = {''default'', ''name'', ''destination''} \<and>
      keys_at v [''rotary''] = {''default''} \<and>
      keys_at v [''rotary'', ''default''] = {''default'', ''name'', ''exit'', ''name_exit''} \<and>
      keys_at v [''rotary'', ''default'', ''name_exit''] = {''default'', ''name'', ''destination''} \<and>
      keys_at v [''roundabout''] = {''default''} \<and>
      keys_at v [''roundabout'', ''default''] = {''exit'', ''default''})"

text \<open>
  What the proof needs from the runtime: the members that plain objects inherit (the
  function \<open>Object\<close>, the methods of \<open>Object.prototype\<close> and that object itself)
  have no member \<open>name_exit\<close>, \<open>exit\<close> or \<open>default\<close>, and reading their \<open>name\<close>
  does not throw.
\<close>

definition inherited_members_have_no_variants :: "runtime \<Rightarrow> bool" where
  "inherited_members_have_no_variants rt =
     (\<forall>b \<in> set object_prototype_keys.
        rt (Builtin b) ''name_exit'' = Inr (Data JUndef) \<and>
        rt (Builtin b) ''exit'' = Inr (Data JUndef) \<and>
        rt (Builtin b) ''default'' = Inr (Data JUndef) \<and>
        (case rt (Builtin b) ''name'' of Inl e \<Rightarrow> False | Inr n \<Rightarrow> True))"

text \<open>
  Sample data: a runtime as far as the runs below read it (an inherited function has
  its name; no other member of a built-in object or of a primitive value is read
  there), and a rotary step with a name and an exit number.
\<close>

definition runtime_names :: runtime where
  "runtime_names v k =
     (case v of
        Builtin b \<Rightarrow>
          if k = ''name'' \<and> b \<noteq> ''__proto__''
          then Inr (Data (JStr (if b = ''constructor'' then ''Object'' else b)))
          else Inr (Data JUndef)
      | Data d \<Rightarrow> Inr (Data JUndef))"

definition step_rotary :: "string option \<Rightarrow> int option \<Rightarrow> step" where
  "step_rotary rn ex =
     \<lparr>geometry = [],
      maneuver = Some \<lparr>mtype = Some ''rotary'', modifier = Some ''right'', exit_number = ex,
                       bearing_after = Some 90\<rparr>,
      distance = 50, duration = 5, step_name = Some ''Ring Rd'', mode = Some ''driving'',
      driving_side = Some ''right'', rotary_name = rn, lanes = None\<rparr>"

subsection \<open>tokenize\<close>

text \<open>
  The value of \<open>tokens[tag]\<close>: \<open>undefined\<close>, a string, or, when the token object has
  no property \<open>tag\<close> itself and \<open>tag\<close> is one of the keys of \<open>Object.prototype\<close>,
  the member inherited from there. The token object is given by the properties it has
  itself, whose values are strings.
\<close>

datatype token_value = TokUndefined | TokString string | TokInherited string

definition token_lookup :: "(string \<rightharpoonup> string) \<Rightarrow> string \<Rightarrow> token_value" where
  "token_lookup toks tag =
     (case toks tag of
        Some v \<Rightarrow> TokString v
      | None \<Rightarrow> if tag \<in> set object_prototype_keys then TokInherited tag else TokUndefined)"

text \<open>
  What \<open>tokenize\<close> takes from its surroundings: the tokens, the option
  \<open>formatToken\<close> (with the text of what it returns), the flag
  \<open>meta.capitalizeFirstLetter\<close> of the language, \<open>toLocaleUpperCase\<close> for the
  language, the grammar table (\<open>grammar_rules g\<close> is the effect of the regular
  expression rules that the language has under the name \<open>g\<close>, if any; the bundle loads
  no grammar, so there it is \<open>None\<close> everywhere), and the text that the runtime gives
  for an inherited member when it is turned into a string.
\<close>

record token_env =
  tokens :: "string \<rightharpoonup> string"
  formatToken :: "(string \<Rightarrow> token_value \<Rightarrow> string) option"
  capitalize :: bool
  toLocaleUpperCase :: "string \<Rightarrow> string"
  grammar_rules :: "string \<Rightarrow> (string \<Rightarrow> string) option"
  text_of_member :: "string \<Rightarrow> string"

definition to_text :: "token_env \<Rightarrow> token_value \<Rightarrow> string" where
  "to_text env v =
     (case v of TokUndefined \<Rightarrow> ''undefined'' | TokString s \<Rightarrow> s | TokInherited k \<Rightarrow> text_of_member env k)"

definition capitalizeFirstLetter :: "(string \<Rightarrow> string) \<Rightarrow> string \<Rightarrow> string" where
  "capitalizeFirstLetter upper s = upper (take 1 s) @ drop 1 s"

text \<open>
  \<open>capitalizeFirstLetter\<close> applied to the value of a token: it calls
  \<open>string.charAt\<close>, which only a string has.
\<close>

definition capitalize_value :: "token_env \<Rightarrow> token_value \<Rightarrow> js_error + token_value" where
  "capitalize_value env v =
     (case v of
        TokString s \<Rightarrow> Inr (TokString (capitalizeFirstLetter (toLocaleUpperCase env) s))
      | _ \<Rightarrow> Inl (TypeError ''string.charAt is not a function''))"

definition is_space :: "char \<Rightarrow> bool" where
  "is_space c = (c \<in> set [CHR '' '', CHR 0x09, CHR 0x0A, CHR 0x0B, CHR 0x0C, CHR 0x0D])"

definition trim :: "string \<Rightarrow> string" where
  "trim s = rev (dropWhile is_space (rev (dropWhile is_space s)))"

definition grammarize :: "token_env \<Rightarrow> token_value \<Rightarrow> string option \<Rightarrow> token_value" where
  "grammarize env nm grammar =
     (case grammar of
        None \<Rightarrow> nm
      | Some g \<Rightarrow>
          (case grammar_rules env g of
             None \<Rightarrow> nm
           | Some rules \<Rightarrow> TokString (trim (rules ('' '' @ to_text env nm @ '' '')))))"

text \<open>
  One match of \<open>/\{(\w+)(?::(\w+))?\}/\<close> at the start of a string: the tag, the
  grammar name if there is one, and the length of the match.
\<close>

definition is_word_char :: "char \<Rightarrow> bool" where
  "is_word_char c =
     (c \<in> set ''abcdefghijklmnopqrstuvwxyzABCDEFGHIJKLMNOPQRSTUVWXYZ0123456789_'')"

definition match_token :: "string \<Rightarrow> (string \<times> string option \<times> nat) option" where
  "match_token s =
     (if take 1 s \<noteq> ''{'' then None
      else
        let tag = takeWhile is_word_char (drop 1 s);
            after_tag = dropWhile is_word_char (drop 1 s)
        in if tag = [] then None
           else if take 1 after_tag = ''}'' then Some (tag, None, length tag + 2)
           else if take 1 after_tag = '':''
           then
             let grammar = takeWhile is_word_char (drop 1 after_tag);
                 after_grammar = dropWhile is_word_char (drop 1 after_tag)
             in if grammar \<noteq> [] \<and> take 1 after_grammar = ''}''
                then Some (tag, Some grammar, length tag + length grammar + 3)
                else None
           else None)"

text \<open>
  The function given to \<open>replace\<close>: \<open>None\<close> when it returns the token unchanged,
  else the text of the value and whether it set \<open>startedWithToken\<close>. It throws when
  it is to capitalise a value that is not a string.
\<close>

definition replacement ::
    "token_env \<Rightarrow> nat \<Rightarrow> string \<Rightarrow> string option \<Rightarrow> js_error + (string \<times> bool) option" where
  "replacement env offset tag grammar =
     (case token_lookup (tokens env) tag of
        TokUndefined \<Rightarrow> Inr None
      | v \<Rightarrow>
          let v1 = grammarize env v grammar;
              starts = (offset = 0 \<and> capitalize env)
          in case (if starts then capitalize_value env v1 else Inr v1) of
               Inl e \<Rightarrow> Inl e
             | Inr v2 \<Rightarrow>
                 Inr (Some ((case formatToken env of
                               None \<Rightarrow> to_text env v2
                             | Some f \<Rightarrow> f tag v2), starts)))"

text \<open>
  The global \<open>replace\<close>, left to right. \<open>skip\<close> counts the characters of the last
  match that are still to be passed over; the result is the new text and
  \<open>startedWithToken\<close>, or the exception of the first call that throws.
\<close>

fun replace_tokens :: "token_env \<Rightarrow> nat \<Rightarrow> nat \<Rightarrow> string \<Rightarrow> js_error + (string \<times> bool)" where
  "replace_tokens env offset skip [] = Inr ([], False)"
| "replace_tokens env offset (Suc k) (c # cs) = replace_tokens env (Suc offset) k cs"
| "replace_tokens env offset 0 (c # cs) =
     (case match_token (c # cs) of
        None \<Rightarrow>
          (case replace_tokens env (Suc offset) 0 cs of
             Inl e \<Rightarrow> Inl e
           | Inr (out, started) \<Rightarrow> Inr (c # out, started))
      | Some (tag, grammar, n) \<Rightarrow>
          (case replacement env offset tag grammar of
             Inl e \<Rightarrow> Inl e
           | Inr r \<Rightarrow>
               (case replace_tokens env (Suc offset) (n - 1) cs of
                  Inl e \<Rightarrow> Inl e
                | Inr (out, started) \<Rightarrow>
                    (case r of
                       None \<Rightarrow> Inr (take n (c # cs) @ out, started)
                     | Some (v, starts) \<Rightarrow> Inr (v @ out, started \<or> starts)))))"

text \<open>\<open>replace(/ {2}/g, ' ')\<close>: each pair of spaces, left to right, becomes one.\<close>

fun collapse_spaces :: "string \<Rightarrow> string" where
  "collapse_spaces (a # b # cs) =
     (if a = CHR '' '' \<and> b = CHR '' '' then CHR '' '' # collapse_spaces cs
      else a # collapse_spaces (b # cs))"
| "collapse_spaces cs = cs"

text \<open>
  \<open>tokenize(language, instruction, tokens, options)\<close>. The environment is built from
  the language's profile; \<open>table\<close> is the table of all languages. The flag
  \<open>meta.capitalizeFirstLetter\<close> is read once here: the source reads it at the first
  token with a value at offset 0, before it capitalises, or else at the end, so a
  missing profile throws first in either case.
\<close>

definition tokenize ::
    "jv \<Rightarrow> (string \<Rightarrow> string \<Rightarrow> string) \<Rightarrow> (string \<Rightarrow> string \<Rightarrow> (string \<Rightarrow> string) option) \<Rightarrow>
     (string \<Rightarrow> string) \<Rightarrow> string \<Rightarrow> string \<Rightarrow> (string \<rightharpoonup> string) \<Rightarrow>
     (string \<Rightarrow> token_value \<Rightarrow> string) option \<Rightarrow> js_error + string" where
  "tokenize table upper grammars member_text language instruction toks fmt =
     (if language = [] then Inl (Error ''No language code provided'')
      else
        bind_err (path table [language, ''meta'', ''capitalizeFirstLetter'']) (\<lambda>cap.
          let env = \<lparr>tokens = toks, formatToken = fmt, capitalize = truthy cap,
                     toLocaleUpperCase = upper language, grammar_rules = grammars language,
                     text_of_member = member_text\<rparr>
          in bind_err (replace_tokens env 0 0 instruction) (\<lambda>(replaced, startedWithToken).
               let output = collapse_spaces replaced
               in Inr (if \<not> startedWithToken \<and> truthy cap
                       then capitalizeFirstLetter (upper language) output
                       else output))))"

text \<open>
  Plain substitution, in the words of the specification: every token that is known is
  replaced by its value (after the grammar rules and \<open>formatToken\<close>), everything else
  is copied. \<open>template_tags\<close> lists the tags of the tokens of a template.
\<close>

definition plain_value :: "token_env \<Rightarrow> string \<Rightarrow> string option \<Rightarrow> string \<Rightarrow> string" where
  "plain_value env tag grammar v =
     (case formatToken env of
        None \<Rightarrow> to_text env (grammarize env (TokString v) grammar)
      | Some f \<Rightarrow> f tag (grammarize env (TokString v) grammar))"

fun substitute :: "token_env \<Rightarrow> nat \<Rightarrow> string \<Rightarrow> string" where
  "substitute env skip [] = []"
| "substitute env (Suc k) (c # cs) = substitute env k cs"
| "substitute env 0 (c # cs) =
     (case match_token (c # cs) of
        None \<Rightarrow> c # substitute env 0 cs
      | Some (tag, grammar, n) \<Rightarrow>
          (case tokens env tag of
             None \<Rightarrow> take n (c # cs)
           | Some v \<Rightarrow> plain_value env tag grammar v) @ substitute env (n - 1) cs)"

fun template_tags :: "nat \<Rightarrow> string \<Rightarrow> string list" where
  "template_tags skip [] = []"
| "template_tags (Suc k) (c # cs) = template_tags k cs"
| "template_tags 0 (c # cs) =
     (case match_token (c # cs) of
        None \<Rightarrow> template_tags 0 cs
      | Some (tag, grammar, n) \<Rightarrow> tag # template_tags (n - 1) cs)"

text \<open>
  Sample data: ASCII upper-casing, no grammar, the tokens of the example, and the text
  that engines print for a native function.
\<close>

definition upper_ascii :: "string \<Rightarrow> string \<Rightarrow> string" where
  "upper_ascii language s = map toUpperCase_char s"

definition no_grammars :: "string \<Rightarrow> string \<Rightarrow> (string \<Rightarrow> string) option" where
  "no_grammars language g = None"

definition example_tokens :: "string \<rightharpoonup> string" where
  "example_tokens = [''modifier'' \<mapsto> ''left'', ''way_name'' \<mapsto> ''Main St'']"

definition native_text :: "string \<Rightarrow> string" where
  "native_text k =
     (if k = ''__proto__'' then ''[object Object]''
      else ''function '' @ (if k = ''constructor'' then ''Object'' else k) @
           ''() { [native code] }'')"

definition token_environment ::
    "(string \<rightharpoonup> string) \<Rightarrow> (string \<Rightarrow> token_value \<Rightarrow> string) option \<Rightarrow> bool \<Rightarrow>
     (string \<Rightarrow> string) \<Rightarrow> (string \<Rightarrow> (string \<Rightarrow> string) option) \<Rightarrow> (string \<Rightarrow> string) \<Rightarrow>
     token_env" where
  "token_environment toks fmt cap upper rules member_text =
     \<lparr>tokens = toks, formatToken = fmt, capitalize = cap, toLocaleUpperCase = upper,
      grammar_rules = rules, text_of_member = member_text\<rparr>"

definition instructions_uncapitalized :: jv where
  "instructions_uncapitalized =
     JObj [(''zz'', JObj [(''meta'', JObj [(''capitalizeFirstLetter'', JBool False)])])]"

section \<open>Properties of the plan\<close>

lemma splice_array_append_end: "splice_array xs (int (length xs)) 0 items = xs @ items"
  by (simp add: splice_array_def)

lemma waypoints_fireChanged [simp]: "waypoints (fireChanged a b c p) = waypoints p"
  by (simp add: fireChanged_def fire_def Let_def)

lemma waypoints_updateMarkers [simp]: "waypoints (updateMarkers p) = waypoints p"
  by (simp add: updateMarkers_def)

lemma waypoints_fireChanged_dist [simp]: "waypoints (fireChanged_dist a p) = waypoints p"
  by (simp add: fireChanged_dist_def fire_def Let_def split: option.splits)

lemma waypoints_updateMarkers_dist [simp]: "waypoints (updateMarkers_dist p) = waypoints p"
  by (simp add: updateMarkers_dist_def)

subsection \<open>plan.ts: which calls return\<close>

lemma plan_run_not_stuck:
  assumes a: "plan_run c p = Some y"
  shows "\<not> stuck c p"
proof (rule plan_run.raw_induct[where P = "\<lambda>c p y. \<not> stuck c p", OF _ a], goal_cases)
  case (1 f c p y)
  show ?case
  proof (cases c)
    case (SpliceWaypoints s d new)
    with 1(2) obtain p' where
      "f EnforceLoop (p\<lparr>waypoints := splice_array (waypoints p) s d new\<rparr>) = Some p'"
      by (auto simp: bind_eq_Some_conv)
    from 1(1)[OF this] show ?thesis using SpliceWaypoints by simp
  next
    case EnforceLoop
    show ?thesis
    proof
      assume "stuck c p"
      then have lt: "length (waypoints p) < 2" using EnforceLoop by simp
      with 1(2) EnforceLoop obtain p' where
        "f (SpliceWaypoints (int (length (waypoints p))) 0 []) p = Some p'"
        by (auto simp: bind_eq_Some_conv)
      from 1(1)[OF this] lt show False by (simp add: splice_array_append_end)
    qed
  qed
qed

lemma plan_run_returns_two:
  assumes a: "plan_run c p = Some y"
  shows "2 \<le> length (waypoints y)"
proof (rule plan_run.raw_induct[where P = "\<lambda>c p y. 2 \<le> length (waypoints y)", OF _ a],
    goal_cases)
  case (1 f c p y)
  show ?case
  proof (cases c)
    case (SpliceWaypoints s d new)
    with 1(2) obtain p' where
      a: "f EnforceLoop (p\<lparr>waypoints := splice_array (waypoints p) s d new\<rparr>) = Some p'"
      and b: "y = fireChanged (Some s) d new (updateMarkers p')"
      by (auto simp: bind_eq_Some_conv)
    from 1(1)[OF a] b show ?thesis by simp
  next
    case EnforceLoop
    show ?thesis
    proof (cases "length (waypoints p) < 2")
      case True
      with 1(2) EnforceLoop obtain p' where "f EnforceLoop p' = Some y"
        by (auto simp: bind_eq_Some_conv)
      from 1(1)[OF this] show ?thesis .
    next
      case False
      with 1(2) EnforceLoop show ?thesis by simp
    qed
  qed
qed

lemma spliceWaypoints_never_returns:
  "length (splice_array (waypoints p) s d new) < 2 \<Longrightarrow> spliceWaypoints p s d new = None"
proof (rule ccontr)
  assume lt: "length (splice_array (waypoints p) s d new) < 2"
  assume "spliceWaypoints p s d new \<noteq> None"
  then obtain y where "plan_run (SpliceWaypoints s d new) p = Some y"
    by (auto simp: spliceWaypoints_def)
  from plan_run_not_stuck[OF this] lt show False by simp
qed

lemma plan_run_EnforceLoop_done:
  "2 \<le> length (waypoints p) \<Longrightarrow> plan_run EnforceLoop p = Some p"
  by (subst plan_run.simps) simp

lemma spliceWaypoints_returns:
  "2 \<le> length (splice_array (waypoints p) s d new) \<Longrightarrow>
   spliceWaypoints p s d new =
     Some (fireChanged (Some s) d new
            (updateMarkers (p\<lparr>waypoints := splice_array (waypoints p) s d new\<rparr>)))"
  unfolding spliceWaypoints_def
  by (subst plan_run.simps) (simp add: plan_run_EnforceLoop_done)

subsection \<open>The bundle: every call returns\<close>

lemma plan_run_dist_EnforceLoop_done:
  "2 \<le> length (waypoints p) \<Longrightarrow> plan_run_dist EnforceLoop_dist p = Some p"
  by (subst plan_run_dist.simps) simp

lemma plan_run_dist_SpliceWaypoints:
  "plan_run_dist (SpliceWaypoints_dist a0 a1 rest) p =
     Option.bind
       (plan_run_dist EnforceLoop_dist
          (p\<lparr>waypoints := splice_array (waypoints p) a0 a1 (map toWaypoint rest)\<rparr>))
       (\<lambda>p'. Some (fireChanged_dist (Some (a0, a1, map toWaypoint rest)) (updateMarkers_dist p')))"
  by (subst plan_run_dist.simps) simp

lemma plan_run_dist_EnforceLoop_step:
  "length (waypoints p) < 2 \<Longrightarrow>
   plan_run_dist EnforceLoop_dist p =
     Option.bind
       (plan_run_dist (SpliceWaypoints_dist (int (length (waypoints p))) 0 [ANull]) p)
       (plan_run_dist EnforceLoop_dist)"
  by (subst plan_run_dist.simps) simp

lemma events_fireChanged_dist:
  "events (fireChanged_dist (Some (i, n, added)) (updateMarkers_dist p)) =
     events p @ [WaypointsChanged (waypoints p), WaypointsSpliced i n added]"
  by (simp add: fireChanged_dist_def fire_def updateMarkers_dist_def getWaypoints_def)

lemma plan_run_dist_EnforceLoop_one:
  assumes "length (waypoints p) = 1"
  shows "\<exists>q pre. plan_run_dist EnforceLoop_dist p = Some q \<and>
             waypoints q = waypoints p @ [new_Waypoint None] \<and>
             events q = events p @ pre"
proof -
  let ?p1 = "p\<lparr>waypoints := waypoints p @ [new_Waypoint None]\<rparr>"
  let ?q = "fireChanged_dist (Some (int (length (waypoints p)), 0, [new_Waypoint None]))
              (updateMarkers_dist ?p1)"
  have inner: "plan_run_dist EnforceLoop_dist ?p1 = Some ?p1"
    using assms by (simp add: plan_run_dist_EnforceLoop_done)
  have call: "plan_run_dist (SpliceWaypoints_dist (int (length (waypoints p))) 0 [ANull]) p = Some ?q"
    by (simp add: plan_run_dist_SpliceWaypoints splice_array_append_end inner)
  have "plan_run_dist EnforceLoop_dist ?q = Some ?q"
    using assms by (simp add: plan_run_dist_EnforceLoop_done)
  with call have run: "plan_run_dist EnforceLoop_dist p = Some ?q"
    using assms by (simp add: plan_run_dist_EnforceLoop_step)
  have "events ?q = events p @
      [WaypointsChanged (waypoints ?p1),
       WaypointsSpliced (int (length (waypoints p))) 0 [new_Waypoint None]]"
    by (simp add: events_fireChanged_dist)
  with run show ?thesis by (intro exI conjI) simp_all
qed

lemma plan_run_dist_EnforceLoop_none:
  assumes "waypoints p = []"
  shows "\<exists>q pre. plan_run_dist EnforceLoop_dist p = Some q \<and>
             waypoints q = [new_Waypoint None, new_Waypoint None] \<and>
             events q = events p @ pre"
proof -
  let ?p1 = "p\<lparr>waypoints := [new_Waypoint None]\<rparr>"
  obtain q1 pre1 where q1: "plan_run_dist EnforceLoop_dist ?p1 = Some q1"
    and w1: "waypoints q1 = [new_Waypoint None, new_Waypoint None]"
    and e1: "events q1 = events p @ pre1"
    using plan_run_dist_EnforceLoop_one[of ?p1] by auto
  let ?q = "fireChanged_dist (Some (0, 0, [new_Waypoint None])) (updateMarkers_dist q1)"
  have call: "plan_run_dist (SpliceWaypoints_dist (int (length (waypoints p))) 0 [ANull]) p = Some ?q"
    using assms q1 by (simp add: plan_run_dist_SpliceWaypoints splice_array_def)
  have "plan_run_dist EnforceLoop_dist ?q = Some ?q"
    using w1 by (simp add: plan_run_dist_EnforceLoop_done)
  with call have run: "plan_run_dist EnforceLoop_dist p = Some ?q"
    using assms by (simp add: plan_run_dist_EnforceLoop_step)
  have "events ?q = events p @ (pre1 @
      [WaypointsChanged (waypoints q1), WaypointsSpliced 0 0 [new_Waypoint None]])"
    using e1 by (simp add: events_fireChanged_dist)
  with run w1 show ?thesis by (intro exI conjI) simp_all
qed

lemma plan_run_dist_EnforceLoop_total:
  "\<exists>q pre. plan_run_dist EnforceLoop_dist p = Some q \<and>
       waypoints q = waypoints p @ replicate (2 - length (waypoints p)) (new_Waypoint None) \<and>
       events q = events p @ pre \<and>
       (2 \<le> length (waypoints p) \<longrightarrow> pre = [])"
proof -
  consider "waypoints p = []" | "length (waypoints p) = 1" | "2 \<le> length (waypoints p)"
    by (cases "waypoints p") (auto simp: Suc_le_eq)
  then show ?thesis
  proof cases
    case 1
    with plan_run_dist_EnforceLoop_none[OF 1] show ?thesis
      by (auto simp: numeral_2_eq_2)
  next
    case 2
    with plan_run_dist_EnforceLoop_one[OF 2] show ?thesis by auto
  next
    case 3
    then show ?thesis by (simp add: plan_run_dist_EnforceLoop_done)
  qed
qed

lemma spliceWaypoints_dist_total:
  "\<exists>p'. spliceWaypoints_dist p a0 a1 rest = Some p' \<and>
        waypoints p' =
          (let ws = splice_array (waypoints p) a0 a1 (map toWaypoint rest)
           in ws @ replicate (2 - length ws) (new_Waypoint None))"
proof -
  let ?p1 = "p\<lparr>waypoints := splice_array (waypoints p) a0 a1 (map toWaypoint rest)\<rparr>"
  obtain q where q: "plan_run_dist EnforceLoop_dist ?p1 = Some q"
    and w: "waypoints q = waypoints ?p1 @ replicate (2 - length (waypoints ?p1)) (new_Waypoint None)"
    using plan_run_dist_EnforceLoop_total[of ?p1] by blast
  show ?thesis
    unfolding spliceWaypoints_dist_def
    using q w by (simp add: plan_run_dist_SpliceWaypoints Let_def)
qed

lemma spliceWaypoints_dist_fires:
  "\<exists>q pre. spliceWaypoints_dist p a0 a1 rest = Some q \<and>
        events q = events p @ pre @
          [WaypointsChanged (waypoints q), WaypointsSpliced a0 a1 (map toWaypoint rest)] \<and>
        (2 \<le> length (splice_array (waypoints p) a0 a1 (map toWaypoint rest)) \<longrightarrow> pre = [])"
proof -
  let ?p1 = "p\<lparr>waypoints := splice_array (waypoints p) a0 a1 (map toWaypoint rest)\<rparr>"
  obtain q pre where q: "plan_run_dist EnforceLoop_dist ?p1 = Some q"
    and e: "events q = events ?p1 @ pre"
    and n: "2 \<le> length (waypoints ?p1) \<longrightarrow> pre = []"
    using plan_run_dist_EnforceLoop_total[of ?p1] by blast
  let ?r = "fireChanged_dist (Some (a0, a1, map toWaypoint rest)) (updateMarkers_dist q)"
  have run: "spliceWaypoints_dist p a0 a1 rest = Some ?r"
    unfolding spliceWaypoints_dist_def using q by (simp add: plan_run_dist_SpliceWaypoints)
  have ev: "events ?r = events p @ pre @
      [WaypointsChanged (waypoints q), WaypointsSpliced a0 a1 (map toWaypoint rest)]"
    using e by (simp add: events_fireChanged_dist)
  have wq: "waypoints ?r = waypoints q" by simp
  show ?thesis
  proof (intro exI conjI)
    show "spliceWaypoints_dist p a0 a1 rest = Some ?r" by (rule run)
    show "events ?r = events p @ pre @
      [WaypointsChanged (waypoints ?r), WaypointsSpliced a0 a1 (map toWaypoint rest)]"
      unfolding wq by (rule ev)
    show "2 \<le> length (splice_array (waypoints p) a0 a1 (map toWaypoint rest)) \<longrightarrow> pre = []"
      using n by simp
  qed
qed

lemma length_padded: "2 \<le> length (ws @ replicate (2 - length ws) x)"
  by simp

text \<open>
  The bundle's method always returns, and its result is the spliced list followed by as
  many empty waypoints (\<open>new Waypoint(null)\<close>) as are missing to two;
  \<open>setWaypoints\<close> is the splice of the whole range.
\<close>

lemma spliceWaypoints_dist_pads:
  "(\<exists>p'. spliceWaypoints_dist p a0 a1 rest = Some p' \<and>
         waypoints p' =
           (let ws = splice_array (waypoints p) a0 a1 (map toWaypoint rest)
            in ws @ replicate (2 - length ws) (new_Waypoint None)) \<and>
         2 \<le> length (waypoints p')) \<and>
   (\<exists>p'. setWaypoints_dist p rest = Some p' \<and> 2 \<le> length (waypoints p'))"
proof (intro conjI)
  show "\<exists>p'. spliceWaypoints_dist p a0 a1 rest = Some p' \<and>
         waypoints p' =
           (let ws = splice_array (waypoints p) a0 a1 (map toWaypoint rest)
            in ws @ replicate (2 - length ws) (new_Waypoint None)) \<and>
         2 \<le> length (waypoints p')"
    using spliceWaypoints_dist_total[of p a0 a1 rest]
    by (metis length_padded)
  show "\<exists>p'. setWaypoints_dist p rest = Some p' \<and> 2 \<le> length (waypoints p')"
    unfolding setWaypoints_dist_def
    using spliceWaypoints_dist_total[of p 0 "int (length (waypoints p))" rest]
    by (metis length_padded)
qed

lemma splice_array_whole: "splice_array xs 0 (int (length xs)) items = items"
  by (simp add: splice_array_def)

lemma spliceWaypoints_result:
  assumes "spliceWaypoints p s d new = Some q"
  shows "2 \<le> length (splice_array (waypoints p) s d new) \<and>
         q = fireChanged (Some s) d new
               (updateMarkers (p\<lparr>waypoints := splice_array (waypoints p) s d new\<rparr>))"
proof -
  have two: "2 \<le> length (splice_array (waypoints p) s d new)"
    using spliceWaypoints_never_returns[of p s d new] assms
    by (cases "length (splice_array (waypoints p) s d new) < 2") auto
  from spliceWaypoints_returns[OF two] assms two show ?thesis by simp
qed

text \<open>
  C1. The claim is that a splice which would leave fewer than two waypoints is padded
  with empty waypoints up to two. The method of plan.ts never appends anything: a call
  that returns leaves exactly the spliced list, and a call whose splice leaves fewer than
  two waypoints does not return at all, because the enforcement call
  \<open>this.spliceWaypoints(this.waypoints.length, 0)\<close> inserts nothing; so
  \<open>setWaypoints\<close> with fewer than two waypoints, which \<open>new Plan([])\<close> calls,
  does not return either.
\<close>

theorem spliceWaypoints_appends_nothing:
  "(\<forall>q. spliceWaypoints p s d new = Some q \<longrightarrow>
        waypoints q = splice_array (waypoints p) s d new) \<and>
   (length (splice_array (waypoints p) s d new) < 2 \<longrightarrow> spliceWaypoints p s d new = None) \<and>
   (length new < 2 \<longrightarrow> setWaypoints p new = None)"
proof (intro conjI allI impI)
  fix q assume "spliceWaypoints p s d new = Some q"
  from spliceWaypoints_result[OF this]
  show "waypoints q = splice_array (waypoints p) s d new" by simp
next
  assume "length (splice_array (waypoints p) s d new) < 2"
  then show "spliceWaypoints p s d new = None" by (rule spliceWaypoints_never_returns)
next
  assume "length new < 2"
  then show "setWaypoints p new = None"
    unfolding setWaypoints_def
    by (intro spliceWaypoints_never_returns) (simp add: splice_array_whole)
qed

theorem spliceWaypoints_appends_nothing_witness:
  "setWaypoints plan_empty [] = None \<and>
   spliceWaypoints plan_empty 0 0 [] = None \<and>
   map_option waypoints (spliceWaypoints plan_AB 1 0 [wp_A]) = Some [wp_A, wp_A, wp_B]"
proof (intro conjI)
  from spliceWaypoints_appends_nothing[of plan_empty 0 0 "[]"]
  show "setWaypoints plan_empty [] = None" by simp
  from spliceWaypoints_appends_nothing[of plan_empty 0 0 "[]"]
  show "spliceWaypoints plan_empty 0 0 [] = None"
    by (simp add: plan_empty_def splice_array_def)
  have "2 \<le> length (splice_array (waypoints plan_AB) 1 0 [wp_A])"
    by (simp add: plan_AB_def splice_array_def)
  from spliceWaypoints_returns[OF this] obtain q where
    q: "spliceWaypoints plan_AB 1 0 [wp_A] = Some q" by blast
  with spliceWaypoints_appends_nothing[of plan_AB 1 0 "[wp_A]"]
  have "waypoints q = splice_array (waypoints plan_AB) 1 0 [wp_A]" by blast
  with q show "map_option waypoints (spliceWaypoints plan_AB 1 0 [wp_A]) = Some [wp_A, wp_A, wp_B]"
    by (simp add: plan_AB_def splice_array_def)
qed

text \<open>
  C2. The claim is that \<open>spliceWaypoints\<close> of plan.ts always terminates. It does not:
  with the waypoints A and B, \<open>spliceWaypoints(1, 1)\<close> (what the delete button of the
  second geocoder field calls) leaves one waypoint, the loop calls
  \<open>spliceWaypoints(1, 0)\<close>, which inserts nothing and enters the same loop again.
\<close>

theorem spliceWaypoints_delete_second_never_returns:
  "spliceWaypoints plan_AB 1 1 [] = None"
  by (rule spliceWaypoints_never_returns) (simp add: plan_AB_def splice_array_def)

text \<open>
  C8, as the code has it. In plan.ts, \<open>fireChanged\<close> always fires the changed event,
  and fires the spliced event exactly when its start index is truthy; a call of
  \<open>spliceWaypoints\<close> whose splice leaves at least two waypoints returns, and every call
  that returns has fired exactly these events with its own start index: the changed
  event, then the spliced event unless the start index is 0. In the bundle,
  \<open>_fireChanged\<close> decides on \<open>arguments.length >= 2\<close>, and \<open>spliceWaypoints\<close>
  always passes at least two arguments: every call returns, and the last two events it
  has fired are the changed event and the spliced event, whatever the start index. The
  events before them are those of the padding calls, and there are none when the splice
  leaves at least two waypoints.
\<close>

theorem spliceWaypoints_events:
  "fireChanged startIndex d new p =
     p\<lparr>events := events p @ WaypointsChanged (waypoints p) #
         (if truthy_number startIndex then [WaypointsSpliced (the startIndex) d new] else [])\<rparr> \<and>
   (2 \<le> length (splice_array (waypoints p) s d new) \<longrightarrow>
      spliceWaypoints p s d new \<noteq> None) \<and>
   (\<forall>q. spliceWaypoints p s d new = Some q \<longrightarrow>
      events q = events p @ WaypointsChanged (splice_array (waypoints p) s d new) #
         (if s \<noteq> 0 then [WaypointsSpliced s d new] else [])) \<and>
   (\<exists>q pre. spliceWaypoints_dist p a0 a1 rest = Some q \<and>
      events q = events p @ pre @
        [WaypointsChanged (waypoints q), WaypointsSpliced a0 a1 (map toWaypoint rest)] \<and>
      (2 \<le> length (splice_array (waypoints p) a0 a1 (map toWaypoint rest)) \<longrightarrow> pre = []))"
proof (intro conjI allI impI)
  show "fireChanged startIndex d new p =
     p\<lparr>events := events p @ WaypointsChanged (waypoints p) #
         (if truthy_number startIndex then [WaypointsSpliced (the startIndex) d new] else [])\<rparr>"
    by (simp add: fireChanged_def fire_def getWaypoints_def Let_def)
next
  assume "2 \<le> length (splice_array (waypoints p) s d new)"
  then show "spliceWaypoints p s d new \<noteq> None"
    by (simp add: spliceWaypoints_returns)
next
  fix q assume q: "spliceWaypoints p s d new = Some q"
  from spliceWaypoints_result[OF q]
  show "events q = events p @ WaypointsChanged (splice_array (waypoints p) s d new) #
         (if s \<noteq> 0 then [WaypointsSpliced s d new] else [])"
    by (auto simp: fireChanged_def fire_def getWaypoints_def Let_def truthy_number_def
        updateMarkers_def)
next
  show "\<exists>q pre. spliceWaypoints_dist p a0 a1 rest = Some q \<and>
      events q = events p @ pre @
        [WaypointsChanged (waypoints q), WaypointsSpliced a0 a1 (map toWaypoint rest)] \<and>
      (2 \<le> length (splice_array (waypoints p) a0 a1 (map toWaypoint rest)) \<longrightarrow> pre = [])"
    by (rule spliceWaypoints_dist_fires)
qed

theorem spliceWaypoints_events_witness:
  "(\<exists>q. spliceWaypoints plan_AB 0 0 [wp_A] = Some q \<and>
        events q = [WaypointsChanged [wp_A, wp_A, wp_B]]) \<and>
   (\<exists>q. spliceWaypoints plan_AB 1 0 [wp_A] = Some q \<and>
        events q = [WaypointsChanged [wp_A, wp_A, wp_B], WaypointsSpliced 1 0 [wp_A]]) \<and>
   (\<exists>q. spliceWaypoints_dist plan_AB 1 0 [ALatLng (57.7, 11.9)] = Some q \<and>
        events q = [WaypointsChanged (waypoints q),
                    WaypointsSpliced 1 0 [new_Waypoint (Some (57.7, 11.9))]])"
proof (intro conjI)
  have l0: "2 \<le> length (splice_array (waypoints plan_AB) 0 0 [wp_A])"
    by (simp add: plan_AB_def splice_array_def)
  with spliceWaypoints_events[where p = plan_AB and s = 0 and d = 0 and new = "[wp_A]",
      THEN conjunct2, THEN conjunct1]
  obtain q0 where q0: "spliceWaypoints plan_AB 0 0 [wp_A] = Some q0" by blast
  with spliceWaypoints_events[where p = plan_AB and s = 0 and d = 0 and new = "[wp_A]",
      THEN conjunct2, THEN conjunct2, THEN conjunct1]
  have "events q0 = events plan_AB @
      WaypointsChanged (splice_array (waypoints plan_AB) 0 0 [wp_A]) #
        (if (0::int) \<noteq> 0 then [WaypointsSpliced 0 0 [wp_A]] else [])"
    by blast
  with q0 show "\<exists>q. spliceWaypoints plan_AB 0 0 [wp_A] = Some q \<and>
        events q = [WaypointsChanged [wp_A, wp_A, wp_B]]"
    by (simp add: plan_AB_def splice_array_def)
  have l1: "2 \<le> length (splice_array (waypoints plan_AB) 1 0 [wp_A])"
    by (simp add: plan_AB_def splice_array_def)
  with spliceWaypoints_events[where p = plan_AB and s = 1 and d = 0 and new = "[wp_A]",
      THEN conjunct2, THEN conjunct1]
  obtain q1 where q1: "spliceWaypoints plan_AB 1 0 [wp_A] = Some q1" by blast
  with spliceWaypoints_events[where p = plan_AB and s = 1 and d = 0 and new = "[wp_A]",
      THEN conjunct2, THEN conjunct2, THEN conjunct1]
  have "events q1 = events plan_AB @
      WaypointsChanged (splice_array (waypoints plan_AB) 1 0 [wp_A]) #
        (if (1::int) \<noteq> 0 then [WaypointsSpliced 1 0 [wp_A]] else [])"
    by blast
  with q1 show "\<exists>q. spliceWaypoints plan_AB 1 0 [wp_A] = Some q \<and>
        events q = [WaypointsChanged [wp_A, wp_A, wp_B], WaypointsSpliced 1 0 [wp_A]]"
    by (simp add: plan_AB_def splice_array_def)
  have l2: "2 \<le> length (splice_array (waypoints plan_AB) 1 0
                (map toWaypoint [ALatLng (57.7, 11.9)]))"
    by (simp add: plan_AB_def splice_array_def)
  from spliceWaypoints_events[where p = plan_AB and ?a0.0 = 1 and ?a1.0 = 0
      and rest = "[ALatLng (57.7, 11.9)]", THEN conjunct2, THEN conjunct2, THEN conjunct2]
  obtain q pre where q: "spliceWaypoints_dist plan_AB 1 0 [ALatLng (57.7, 11.9)] = Some q"
    and e: "events q = events plan_AB @ pre @
        [WaypointsChanged (waypoints q),
         WaypointsSpliced 1 0 (map toWaypoint [ALatLng (57.7, 11.9)])]"
    and n: "2 \<le> length (splice_array (waypoints plan_AB) 1 0
                (map toWaypoint [ALatLng (57.7, 11.9)])) \<longrightarrow> pre = []"
    by blast
  from n l2 have "pre = []" by blast
  with q e show "\<exists>q. spliceWaypoints_dist plan_AB 1 0 [ALatLng (57.7, 11.9)] = Some q \<and>
        events q = [WaypointsChanged (waypoints q),
                    WaypointsSpliced 1 0 [new_Waypoint (Some (57.7, 11.9))]]"
    by (simp add: plan_AB_def)
qed

text \<open>
  The bundle at index 0: inserting A before the waypoints A and B fires the changed
  event and the spliced event.
\<close>

theorem spliceWaypoints_dist_index_0_fires_spliced:
  "map_option events (spliceWaypoints_dist plan_AB 0 0 [AWaypoint wp_A]) =
     Some [WaypointsChanged [wp_A, wp_A, wp_B], WaypointsSpliced 0 0 [wp_A]]"
  by (simp add: spliceWaypoints_dist_def plan_run_dist_SpliceWaypoints
      plan_run_dist_EnforceLoop_done events_fireChanged_dist plan_AB_def splice_array_def)

lemma spliceWaypoints_dist_events:
  assumes "2 \<le> length (splice_array (waypoints p) a0 a1 (map toWaypoint rest))"
  shows "\<exists>q. spliceWaypoints_dist p a0 a1 rest = Some q \<and>
             events q = events p @
               [WaypointsChanged (splice_array (waypoints p) a0 a1 (map toWaypoint rest)),
                WaypointsSpliced a0 a1 (map toWaypoint rest)]"
  using assms
  by (simp add: spliceWaypoints_dist_def plan_run_dist_SpliceWaypoints
      plan_run_dist_EnforceLoop_done fireChanged_dist_def fire_def updateMarkers_dist_def
      getWaypoints_def)

section \<open>Compass bucketing\<close>

lemma js_rem_nat: "js_rem (int k) 8 = int (k mod 8)"
  by (cases "k = 0") (auto simp: js_rem_def zmod_int)

lemma bearingToDirection_sector:
  assumes "45 * real k - 45 / 2 \<le> b" and "b < 45 * real k + 45 / 2"
  shows "bearingToDirection b = Some (compass_points ! (k mod 8))"
proof -
  have "Math_round (b / 45) = int k"
    unfolding Math_round_def using assms by (simp add: floor_eq_iff)
  then show ?thesis
    by (simp add: bearingToDirection_def js_rem_nat)
qed

lemma bearing_sector_exists:
  assumes "0 \<le> b" and "b \<le> 360"
  shows "\<exists>k\<le>8. 45 * real k - 45 / 2 \<le> b \<and> b < 45 * real k + 45 / 2"
proof -
  define k where "k = nat \<lfloor>b / 45 + 1 / 2\<rfloor>"
  have nonneg: "0 \<le> \<lfloor>b / 45 + 1 / 2\<rfloor>" using assms by simp
  have "\<lfloor>b / 45 + 1 / 2\<rfloor> \<le> 8"
  proof -
    have "b / 45 + 1 / 2 < 9" using assms by simp
    then have "\<lfloor>b / 45 + 1 / 2\<rfloor> < 9" by (simp add: floor_less_iff)
    then show ?thesis by simp
  qed
  then have k8: "k \<le> 8" unfolding k_def by linarith
  have rk: "real k = of_int \<lfloor>b / 45 + 1 / 2\<rfloor>"
    using nonneg by (simp add: k_def)
  have "real k \<le> b / 45 + 1 / 2" and "b / 45 + 1 / 2 < real k + 1"
    unfolding rk by linarith+
  then have "45 * real k - 45 / 2 \<le> b \<and> b < 45 * real k + 45 / 2"
    by (simp add: field_simps)
  with k8 show ?thesis by blast
qed

text \<open>
  C6, as the code has it. \<open>_bearingToDirection\<close> rounds \<open>bearing / 45\<close> to the nearest
  integer: every bearing in [0, 360] lies in one sector of 45 degrees that is centred on
  a multiple of 45 and contains its lower bound, and is mapped to the compass point of
  that sector (the ninth sector being north again). So 0 and 359 are north, 44 and 46
  are both north-east. The text compiler's \<open>directionFromDegree\<close> agrees on these four
  bearings.
\<close>

theorem bearingToDirection_sectors:
  "(0 \<le> b \<and> b \<le> 360 \<longrightarrow>
      (\<exists>k\<le>8. 45 * real k - 45 / 2 \<le> b \<and> b < 45 * real k + 45 / 2 \<and>
             bearingToDirection b = Some (compass_points ! (k mod 8)))) \<and>
   bearingToDirection 0 = Some ''N'' \<and>
   bearingToDirection 44 = Some ''NE'' \<and>
   bearingToDirection 46 = Some ''NE'' \<and>
   bearingToDirection 359 = Some ''N'' \<and>
   directionFromDegree instructions_en ''v5'' ''en'' (Some 0) = Inr (JStr ''north'') \<and>
   directionFromDegree instructions_en ''v5'' ''en'' (Some 44) = Inr (JStr ''northeast'') \<and>
   directionFromDegree instructions_en ''v5'' ''en'' (Some 46) = Inr (JStr ''northeast'') \<and>
   directionFromDegree instructions_en ''v5'' ''en'' (Some 359) = Inr (JStr ''north'')"
proof (intro conjI impI)
  assume "0 \<le> b \<and> b \<le> 360"
  then obtain k where "k \<le> 8" "45 * real k - 45 / 2 \<le> b" "b < 45 * real k + 45 / 2"
    using bearing_sector_exists[of b] by blast
  then show "\<exists>k\<le>8. 45 * real k - 45 / 2 \<le> b \<and> b < 45 * real k + 45 / 2 \<and>
             bearingToDirection b = Some (compass_points ! (k mod 8))"
    using bearingToDirection_sector[of k b] by blast
qed (simp_all add: bearingToDirection_def Math_round_def js_rem_def compass_points_def
      directionFromDegree_def direction_word_def instructions_en_def en_v5_def)

theorem bearingToDirection_sectors_witness:
  "\<exists>k\<le>8. 45 * real k - 45 / 2 \<le> 44 \<and> (44::real) < 45 * real k + 45 / 2 \<and>
          bearingToDirection 44 = Some (compass_points ! (k mod 8))"
proof -
  have "0 \<le> (44::real) \<and> (44::real) \<le> 360" by simp
  with bearingToDirection_sectors[of 44] show ?thesis by blast
qed

text \<open>
  The bearing 44 of the specification's example is not north, for either function.
\<close>

theorem bearing_44_is_not_north:
  "bearingToDirection 44 \<noteq> Some ''N'' \<and>
   directionFromDegree instructions_en ''v5'' ''en'' (Some 44) \<noteq> Inr (JStr ''north'')"
  by (simp add: bearingToDirection_def Math_round_def js_rem_def compass_points_def
      directionFromDegree_def direction_word_def instructions_en_def en_v5_def)

section \<open>Converting a route\<close>

lemma type_of_depart:
  "is_type st ''depart'' \<Longrightarrow> maneuverToInstructionType (maneuver st) b = Inr ''Head''"
  by (auto simp: is_type_def maneuverToInstructionType_def split: option.splits)

lemma type_of_arrive:
  "is_type st ''arrive'' \<Longrightarrow>
   maneuverToInstructionType (maneuver st) b =
     Inr (if b then ''DestinationReached'' else ''WaypointReached'')"
  by (auto simp: is_type_def maneuverToInstructionType_def split: option.splits)

lemma modifier_of_depart_arrive:
  "is_type st ''depart'' \<or> is_type st ''arrive'' \<Longrightarrow>
   \<exists>m. maneuverToModifier (maneuver st) = Inr m"
  by (auto simp: is_type_def maneuverToModifier_def split: option.splits)

lemma convert_steps_indices:
  "convert_steps opts legCount i sts acc = Inr acc' \<Longrightarrow>
   c_waypointIndices acc' =
     c_waypointIndices acc @ recorded_in_steps (decodePolyline opts) i (c_index acc) sts \<and>
   c_index acc' = c_index acc + coordinate_count (decodePolyline opts) sts \<and>
   c_coordinates acc' =
     c_coordinates acc @ concat (map (\<lambda>st. decodePolyline opts (geometry st)) sts)"
proof (induction sts arbitrary: acc)
  case Nil
  then show ?case by (simp add: coordinate_count_def)
next
  case (Cons st sts)
  from Cons.prems obtain type modif rendered where
    ty: "maneuverToInstructionType (maneuver st) (int i = int legCount - 1) = Inr type"
    and md: "maneuverToModifier (maneuver st) = Inr modif"
    and tx: "stepToText opts st legCount i = Inr rendered"
    by (auto simp: Let_def split: sum.splits)
  have nonempty: "(i = 0 \<and> is_type st ''depart'') \<or> is_type st ''arrive'' \<Longrightarrow> type \<noteq> []"
    using ty type_of_depart[of st] type_of_arrive[of st] by (auto split: if_splits)
  from Cons.prems ty md tx obtain acc1 where
    rec: "convert_steps opts legCount i sts acc1 = Inr acc'"
    and w1: "c_waypointIndices acc1 = c_waypointIndices acc @
       (if (i = 0 \<and> is_type st ''depart'') \<or> is_type st ''arrive'' then [c_index acc] else [])"
    and i1: "c_index acc1 = c_index acc + length (decodePolyline opts (geometry st))"
    and c1: "c_coordinates acc1 = c_coordinates acc @ decodePolyline opts (geometry st)"
    using nonempty by (auto simp: Let_def)
  from Cons.IH[OF rec] w1 i1 c1 show ?case
    by (simp add: coordinate_count_def)
qed

lemma convert_legs_indices:
  "convert_legs opts legCount i ls acc = Inr acc' \<Longrightarrow>
   c_waypointIndices acc' =
     c_waypointIndices acc @ recorded_in_legs (decodePolyline opts) i (c_index acc) ls \<and>
   c_coordinates acc' =
     c_coordinates acc @
       concat (map (\<lambda>st. decodePolyline opts (geometry st)) (concat (map steps ls)))"
proof (induction ls arbitrary: acc i)
  case Nil
  then show ?case by simp
next
  case (Cons l ls)
  let ?acc0 = "acc\<lparr>c_legNames := c_legNames acc @
                 [case summary l of None \<Rightarrow> None
                  | Some s \<Rightarrow> Some (if s = [] then [] else capitalize_ascii s)]\<rparr>"
  from Cons.prems obtain acc1 where
    s1: "convert_steps opts legCount i (steps l) ?acc0 = Inr acc1"
    and r1: "convert_legs opts legCount (Suc i) ls acc1 = Inr acc'"
    by (auto split: sum.splits)
  from convert_steps_indices[OF s1] Cons.IH[OF r1] show ?case by simp
qed

lemma convertRoute_indices:
  assumes "convertRoute opts rr = Inr r"
  shows "waypointIndices r =
           (if steps (hd (legs rr)) = [] then None
            else Some (recorded_in_legs (decodePolyline opts) 0 0 (legs rr)))"
proof -
  from assms obtain leg0 rest where l: "legs rr = leg0 # rest"
    by (cases "legs rr") (auto simp: convertRoute_def)
  from assms l obtain acc where
    a: "convert_legs opts (length (legs rr)) 0 (legs rr)
          \<lparr>c_coordinates = [], c_instructions = [], c_waypointIndices = [],
           c_index = 0, c_legNames = []\<rparr> = Inr acc"
    by (auto simp: convertRoute_def Let_def split: sum.splits)
  from convert_legs_indices[OF a] assms l a show ?thesis
    by (auto simp: convertRoute_def Let_def split: option.splits if_splits)
qed

lemma convertRoute_depart_arrive:
  assumes l: "legs rr = [\<lparr>summary = sm, steps = [d, a]\<rparr>]"
    and d: "is_type d ''depart''" and a: "is_type a ''arrive''"
    and td: "stepToText opts d 1 0 = Inr t1" and ta: "stepToText opts a 1 0 = Inr t2"
  shows "\<exists>r. convertRoute opts rr = Inr r \<and> length (instructions r) = 2 \<and>
             coordinates r = decodePolyline opts (geometry d) @ decodePolyline opts (geometry a) \<and>
             waypointIndices r = Some [0, length (decodePolyline opts (geometry d))]"
proof -
  obtain md where md: "maneuverToModifier (maneuver d) = Inr md"
    using modifier_of_depart_arrive[of d] d by blast
  obtain ma where ma: "maneuverToModifier (maneuver a) = Inr ma"
    using modifier_of_depart_arrive[of a] a by blast
  show ?thesis
    using l d a td ta md ma
    by (simp add: convertRoute_def Let_def type_of_depart type_of_arrive)
qed

lemma sample_steps:
  "legs (sample_route g) = [\<lparr>summary = Some ''main St'', steps = [step_depart, step_arrive g]\<rparr>]"
  "is_type step_depart ''depart''"
  "is_type (step_arrive g) ''arrive''"
  "stepToText sample_options step_depart 1 0 = Inr []"
  "stepToText sample_options (step_arrive g) 1 0 = Inr []"
  by (simp_all add: sample_route_def is_type_def step_depart_def step_arrive_def
      sample_options_def)

text \<open>
  C7, as the code has it. A converted route whose first leg has steps carries as
  waypoint indices exactly the running coordinate offsets of the steps that are a
  \<open>depart\<close> on the first leg or an \<open>arrive\<close> (a route whose first leg has no steps
  carries none). For one leg with the steps depart and arrive, whose texts can be
  rendered, the route has two instructions and the indices 0 and N, where N is the number
  of coordinates of the depart step; N is the last coordinate index when the geometry of
  the arrive step is a single coordinate.
\<close>

theorem convertRoute_waypointIndices:
  "(\<forall>r. convertRoute opts rr = Inr r \<longrightarrow>
      waypointIndices r =
        (if steps (hd (legs rr)) = [] then None
         else Some (recorded_in_legs (decodePolyline opts) 0 0 (legs rr)))) \<and>
   (legs rr' = [\<lparr>summary = sm, steps = [d, a]\<rparr>] \<and> is_type d ''depart'' \<and> is_type a ''arrive'' \<and>
    stepToText opts d 1 0 = Inr t1 \<and> stepToText opts a 1 0 = Inr t2 \<longrightarrow>
      (\<exists>r. convertRoute opts rr' = Inr r \<and> length (instructions r) = 2 \<and>
           coordinates r = decodePolyline opts (geometry d) @ decodePolyline opts (geometry a) \<and>
           waypointIndices r = Some [0, length (decodePolyline opts (geometry d))] \<and>
           (length (decodePolyline opts (geometry a)) = 1 \<longrightarrow>
              waypointIndices r = Some [0, length (coordinates r) - 1])))"
proof (intro conjI allI impI)
  fix r assume "convertRoute opts rr = Inr r"
  then show "waypointIndices r =
        (if steps (hd (legs rr)) = [] then None
         else Some (recorded_in_legs (decodePolyline opts) 0 0 (legs rr)))"
    by (rule convertRoute_indices)
next
  assume h: "legs rr' = [\<lparr>summary = sm, steps = [d, a]\<rparr>] \<and> is_type d ''depart'' \<and>
    is_type a ''arrive'' \<and> stepToText opts d 1 0 = Inr t1 \<and> stepToText opts a 1 0 = Inr t2"
  then obtain r where r: "convertRoute opts rr' = Inr r" "length (instructions r) = 2"
    "coordinates r = decodePolyline opts (geometry d) @ decodePolyline opts (geometry a)"
    "waypointIndices r = Some [0, length (decodePolyline opts (geometry d))]"
    using convertRoute_depart_arrive[of rr' sm d a opts t1 t2] by blast
  then have "length (decodePolyline opts (geometry a)) = 1 \<longrightarrow>
              waypointIndices r = Some [0, length (coordinates r) - 1]"
    by simp
  with r show "\<exists>r. convertRoute opts rr' = Inr r \<and> length (instructions r) = 2 \<and>
           coordinates r = decodePolyline opts (geometry d) @ decodePolyline opts (geometry a) \<and>
           waypointIndices r = Some [0, length (decodePolyline opts (geometry d))] \<and>
           (length (decodePolyline opts (geometry a)) = 1 \<longrightarrow>
              waypointIndices r = Some [0, length (coordinates r) - 1])"
    by blast
qed

theorem convertRoute_waypointIndices_witness:
  "\<exists>r. convertRoute sample_options (sample_route ''_p~iF~ps|U'') = Inr r \<and>
       length (instructions r) = 2 \<and>
       waypointIndices r = Some [0, 2] \<and>
       waypointIndices r = Some [0, length (coordinates r) - 1] \<and>
       waypointIndices r =
         Some (recorded_in_legs sample_decode 0 0 (legs (sample_route ''_p~iF~ps|U'')))"
proof -
  have one: "length (decodePolyline sample_options (geometry (step_arrive ''_p~iF~ps|U''))) = 1"
    by (simp add: sample_options_def step_arrive_def sample_decode_def)
  have two: "length (decodePolyline sample_options (geometry step_depart)) = 2"
    by (simp add: sample_options_def step_depart_def sample_decode_def)
  have ne: "steps (hd (legs (sample_route ''_p~iF~ps|U''))) \<noteq> []"
    by (simp add: sample_route_def)
  have dec: "decodePolyline sample_options = sample_decode"
    by (simp add: sample_options_def)
  from convertRoute_waypointIndices[where opts = sample_options
      and rr = "sample_route ''_p~iF~ps|U''" and rr' = "sample_route ''_p~iF~ps|U''"
      and sm = "Some ''main St''" and d = step_depart and a = "step_arrive ''_p~iF~ps|U''"
      and ?t1.0 = "[]" and ?t2.0 = "[]"] sample_steps one two ne dec
  show ?thesis by auto
qed

text \<open>
  When the arrive step has two coordinates (here after a depart step of two), the second
  index is 2 and the last coordinate index is 3.
\<close>

theorem convertRoute_arrive_not_last_index:
  "\<not> isl (convertRoute sample_options (sample_route ''_p~iF~ps|U_ulLnnqC'')) \<and>
   length (instructions (projr (convertRoute sample_options (sample_route ''_p~iF~ps|U_ulLnnqC'')))) = 2 \<and>
   waypointIndices (projr (convertRoute sample_options (sample_route ''_p~iF~ps|U_ulLnnqC''))) =
     Some [0, 2] \<and>
   length (coordinates (projr (convertRoute sample_options (sample_route ''_p~iF~ps|U_ulLnnqC'')))) - 1 = 3"
proof -
  from convertRoute_depart_arrive[OF sample_steps, of "''_p~iF~ps|U_ulLnnqC''"]
  show ?thesis
    by (auto simp: sample_options_def sample_decode_def step_depart_def step_arrive_def)
qed

section \<open>The route client: callbacks\<close>

lemma calls_invoke [simp]: "calls (snd (invoke cb args st)) = calls st @ [args]"
  by (simp add: invoke_def)

lemma flags_invoke [simp]:
  "timedOut (snd (invoke cb args st)) = timedOut st"
  "timer_pending (snd (invoke cb args st)) = timer_pending st"
  "aborts (snd (invoke cb args st)) = aborts st"
  by (simp_all add: invoke_def)

lemma routeDone_calls:
  "routeDone opts cb resp wps ropts st = (ex, st') \<Longrightarrow>
   timedOut st' = timedOut st \<and> timer_pending st' = timer_pending st \<and> aborts st' = aborts st \<and>
   ((\<exists>args. calls st' = calls st @ [args] \<and> (ex \<noteq> None \<longrightarrow> cb args)) \<or>
    (calls st' = calls st \<and> ex \<noteq> None))"
  by (auto simp: routeDone_def invoke_def Let_def
      split: if_splits sum.splits prod.splits option.splits)

lemma routeDone_not_Ok:
  "code resp \<noteq> ''Ok'' \<Longrightarrow>
   routeDone opts cb resp wps ropts st =
     invoke cb (Some \<lparr>status = StatusCode (code resp), message = None\<rparr>, None) st"
  by (simp add: routeDone_def)

lemma routeDone_routes_only_Ok:
  assumes "args \<in> set (drop (length (calls st)) (calls (snd (routeDone opts cb resp wps ropts st))))"
    and "snd args \<noteq> None"
  shows "code resp = ''Ok''"
proof (rule ccontr)
  assume "code resp \<noteq> ''Ok''"
  from routeDone_not_Ok[OF this, of opts cb wps ropts st] assms show False by simp
qed

text \<open>
  C5. A parsed response whose code is not \<open>Ok\<close> makes \<open>_routeDone\<close> call the callback
  once, with an error whose status is that code and without routes; inside \<open>route\<close>
  this is the only call when the callback returns normally. A call of \<open>_routeDone\<close>
  that hands over routes happens only for the code \<open>Ok\<close>.
\<close>

theorem routeDone_code_not_Ok:
  "(code resp \<noteq> ''Ok'' \<longrightarrow>
      routeDone opts cb resp wps ropts st =
        invoke cb (Some \<lparr>status = StatusCode (code resp), message = None\<rparr>, None) st \<and>
      calls (snd (routeDone opts cb resp wps ropts st)) =
        calls st @ [(Some \<lparr>status = StatusCode (code resp), message = None\<rparr>, None)]) \<and>
   (code resp \<noteq> ''Ok'' \<and> \<not> timedOut st \<and>
    \<not> cb (Some \<lparr>status = StatusCode (code resp), message = None\<rparr>, None) \<longrightarrow>
      calls (on_response opts cb wps ropts (Loaded (Inr resp)) st) =
        calls st @ [(Some \<lparr>status = StatusCode (code resp), message = None\<rparr>, None)]) \<and>
   (\<forall>args \<in> set (drop (length (calls st)) (calls (snd (routeDone opts cb resp wps ropts st)))).
      snd args \<noteq> None \<longrightarrow> code resp = ''Ok'')"
proof (intro conjI impI ballI)
  assume "code resp \<noteq> ''Ok''"
  then show "routeDone opts cb resp wps ropts st =
        invoke cb (Some \<lparr>status = StatusCode (code resp), message = None\<rparr>, None) st"
    by (rule routeDone_not_Ok)
  then show "calls (snd (routeDone opts cb resp wps ropts st)) =
        calls st @ [(Some \<lparr>status = StatusCode (code resp), message = None\<rparr>, None)]"
    by simp
next
  assume "code resp \<noteq> ''Ok'' \<and> \<not> timedOut st \<and>
    \<not> cb (Some \<lparr>status = StatusCode (code resp), message = None\<rparr>, None)"
  then show "calls (on_response opts cb wps ropts (Loaded (Inr resp)) st) =
        calls st @ [(Some \<lparr>status = StatusCode (code resp), message = None\<rparr>, None)]"
    by (simp add: on_response_def Let_def routeDone_not_Ok invoke_def)
next
  fix args
  assume "args \<in> set (drop (length (calls st)) (calls (snd (routeDone opts cb resp wps ropts st))))"
    and "snd args \<noteq> None"
  then show "code resp = ''Ok''" by (rule routeDone_routes_only_Ok)
qed

theorem routeDone_code_not_Ok_witness:
  "calls (on_response sample_options (\<lambda>args. False) [] default_routing_options
            (Loaded (Inr response_no_route)) (route_start Map.empty)) =
     [(Some \<lparr>status = StatusCode ''NoRoute'', message = None\<rparr>, None)] \<and>
   calls (snd (routeDone sample_options (\<lambda>args. False) response_no_route [] default_routing_options
            (route_start Map.empty))) =
     [(Some \<lparr>status = StatusCode ''NoRoute'', message = None\<rparr>, None)] \<and>
   calls (snd (routeDone sample_options (\<lambda>args. False) response_ok [] default_routing_options
            (route_start Map.empty))) = [(None, Some [])] \<and>
   code response_ok = ''Ok''"
proof -
  have c: "calls (snd (routeDone sample_options (\<lambda>args. False) response_ok [] default_routing_options
            (route_start Map.empty))) = [(None, Some [])]"
    by (simp add: routeDone_def response_ok_def saveHintData_def invoke_def route_start_def)
  have n: "code response_no_route \<noteq> ''Ok''" "\<not> timedOut (route_start Map.empty)"
    "calls (route_start Map.empty) = []"
    by (simp_all add: response_no_route_def route_start_def)
  have k: "code response_no_route = ''NoRoute''" by (simp add: response_no_route_def)
  from routeDone_code_not_Ok[of response_no_route sample_options "\<lambda>args. False" "[]"
      default_routing_options "route_start Map.empty"] n k
  have a: "calls (on_response sample_options (\<lambda>args. False) [] default_routing_options
            (Loaded (Inr response_no_route)) (route_start Map.empty)) =
     [(Some \<lparr>status = StatusCode ''NoRoute'', message = None\<rparr>, None)]"
    and b: "calls (snd (routeDone sample_options (\<lambda>args. False) response_no_route []
            default_routing_options (route_start Map.empty))) =
     [(Some \<lparr>status = StatusCode ''NoRoute'', message = None\<rparr>, None)]"
    by simp_all
  from routeDone_code_not_Ok[of response_ok sample_options "\<lambda>args. False" "[]"
      default_routing_options "route_start Map.empty"] c n(3)
  have "code response_ok = ''Ok''" by simp
  with a b c show ?thesis by simp
qed

lemma on_response_timedOut:
  "timedOut st \<Longrightarrow>
   on_response opts cb wps ropts res st = st\<lparr>timer_pending := False, aborts := aborts st + 1\<rparr>"
  by (simp add: on_response_def Let_def)

lemma run_after_timeout:
  "timedOut st \<Longrightarrow> \<not> timer_pending st \<Longrightarrow>
   calls (route_run opts cb wps ropts evs st) = calls st \<and>
   aborts (route_run opts cb wps ropts evs st) = aborts st + completions evs"
proof (induction evs arbitrary: st)
  case Nil
  then show ?case by (simp add: route_run_def completions_def)
next
  case (Cons e evs)
  show ?case
  proof (cases e)
    case TimerFires
    with Cons.prems have "route_event opts cb wps ropts e st = st" by (simp add: on_timer_def)
    with Cons.IH[OF Cons.prems] TimerFires show ?thesis
      by (simp add: route_run_def completions_def)
  next
    case (TransportCompletes res)
    let ?st = "st\<lparr>timer_pending := False, aborts := aborts st + 1\<rparr>"
    have s: "route_event opts cb wps ropts e st = ?st"
      using TransportCompletes Cons.prems by (simp add: on_response_timedOut)
    have "timedOut ?st" "\<not> timer_pending ?st" using Cons.prems by simp_all
    from Cons.IH[OF this] s TransportCompletes show ?thesis
      by (simp add: route_run_def completions_def)
  qed
qed

lemma run_no_completion:
  "\<not> timer_pending st \<Longrightarrow> completions evs = 0 \<Longrightarrow> route_run opts cb wps ropts evs st = st"
proof (induction evs)
  case Nil
  then show ?case by (simp add: route_run_def)
next
  case (Cons e evs)
  then have e: "e = TimerFires" and r: "completions evs = 0"
    by (auto simp: completions_def split: if_splits)
  with Cons show ?case by (simp add: route_run_def on_timer_def)
qed

lemma on_response_calls:
  assumes "\<not> timedOut st"
  shows "\<not> timer_pending (on_response opts cb wps ropts res st) \<and>
         length (calls (on_response opts cb wps ropts res st)) \<le> length (calls st) + 2 \<and>
         ((\<forall>args. \<not> cb args) \<longrightarrow>
            length (calls (on_response opts cb wps ropts res st)) = length (calls st) + 1)"
proof (cases res)
  case (Failed err)
  with assms show ?thesis by (simp add: on_response_def Let_def invoke_def)
next
  case (Loaded body)
  show ?thesis
  proof (cases body)
    case (Inl ex)
    with Loaded assms show ?thesis by (simp add: on_response_def Let_def invoke_def)
  next
    case (Inr data)
    obtain ex st2 where
      rd: "routeDone opts cb data wps ropts (st\<lparr>timer_pending := False\<rparr>) = (ex, st2)"
      by (cases "routeDone opts cb data wps ropts (st\<lparr>timer_pending := False\<rparr>)")
    from routeDone_calls[OF rd] Loaded Inr assms rd show ?thesis
      by (cases ex) (auto simp: on_response_def Let_def invoke_def)
  qed
qed

lemma run_from_start:
  assumes "\<not> timedOut st" "timer_pending st" "completions evs \<le> 1"
  shows "length (calls (route_run opts cb wps ropts evs st)) \<le> length (calls st) + 2 \<and>
         ((\<forall>args. \<not> cb args) \<longrightarrow>
            length (calls (route_run opts cb wps ropts evs st)) \<le> length (calls st) + 1)"
  using assms
proof (induction evs arbitrary: st)
  case Nil
  then show ?case by (simp add: route_run_def)
next
  case (Cons e evs)
  show ?case
  proof (cases e)
    case TimerFires
    let ?st = "route_event opts cb wps ropts e st"
    have a: "timedOut ?st" "\<not> timer_pending ?st" "length (calls ?st) = length (calls st) + 1"
      using TimerFires Cons.prems by (simp_all add: on_timer_def invoke_def)
    from run_after_timeout[OF a(1,2), of opts cb wps ropts evs] a(3) show ?thesis
      by (simp add: route_run_def)
  next
    case (TransportCompletes res)
    let ?st = "route_event opts cb wps ropts e st"
    from Cons.prems TransportCompletes have c0: "completions evs = 0"
      by (simp add: completions_def)
    have "\<not> timer_pending ?st"
      using on_response_calls[OF Cons.prems(1), of opts cb wps ropts res] TransportCompletes
      by simp
    from run_no_completion[OF this c0, of opts cb wps ropts]
      on_response_calls[OF Cons.prems(1), of opts cb wps ropts res] TransportCompletes
    show ?thesis by (simp add: route_run_def)
  qed
qed

text \<open>
  C4, as the code has it. When the timer fires first, the callback is called exactly
  once, with the timeout error of status -1, and whatever the transport delivers later
  is answered with \<open>xhr.abort()\<close> and calls nothing. When the transport completes at
  most once and the callback does not throw, the callback is called at most once in
  every run. A callback that throws while \<open>_routeDone\<close> calls it is called a second
  time, with status -3, so without that assumption the bound is two.
\<close>

theorem route_callback_calls:
  "calls (route_run opts cb wps ropts (TimerFires # evs) (route_start h)) =
     [(Some \<lparr>status = StatusNumber (- 1),
             message = Some (Text ''OSRM request timed out.'')\<rparr>, None)] \<and>
   aborts (route_run opts cb wps ropts (TimerFires # evs) (route_start h)) = completions evs \<and>
   (completions evs \<le> 1 \<and> (\<forall>args. \<not> cb args) \<longrightarrow>
      length (calls (route_run opts cb wps ropts evs (route_start h))) \<le> 1) \<and>
   (completions evs \<le> 1 \<longrightarrow>
      length (calls (route_run opts cb wps ropts evs (route_start h))) \<le> 2)"
proof -
  let ?st = "on_timer cb (route_start h)"
  have t: "timedOut ?st" "\<not> timer_pending ?st" "aborts ?st = 0"
    "calls ?st = [(Some \<lparr>status = StatusNumber (- 1),
             message = Some (Text ''OSRM request timed out.'')\<rparr>, None)]"
    by (simp_all add: on_timer_def route_start_def invoke_def)
  have r: "route_run opts cb wps ropts (TimerFires # evs) (route_start h) =
           route_run opts cb wps ropts evs ?st"
    by (simp add: route_run_def)
  have s: "\<not> timedOut (route_start h)" "timer_pending (route_start h)"
    "calls (route_start h) = []"
    by (simp_all add: route_start_def)
  from run_after_timeout[OF t(1,2), of opts cb wps ropts evs] t(3,4) r
    run_from_start[OF s(1,2), of evs opts cb wps ropts] s(3)
  show ?thesis by (auto simp: numeral_2_eq_2)
qed

theorem route_callback_calls_witness:
  "length (calls (route_run sample_options (\<lambda>args. False) [] default_routing_options
      [TransportCompletes (Loaded (Inr response_ok)), TimerFires] (route_start Map.empty))) \<le> 1 \<and>
   length (calls (route_run sample_options throws_on_success [] default_routing_options
      [TransportCompletes (Loaded (Inr response_ok)), TimerFires] (route_start Map.empty))) \<le> 2"
proof -
  have c: "completions [TransportCompletes (Loaded (Inr response_ok)), TimerFires] \<le> 1"
    by (simp add: completions_def)
  from route_callback_calls[of sample_options "\<lambda>args. False" "[]" default_routing_options
      "[TransportCompletes (Loaded (Inr response_ok)), TimerFires]" Map.empty]
    route_callback_calls[of sample_options throws_on_success "[]" default_routing_options
      "[TransportCompletes (Loaded (Inr response_ok)), TimerFires]" Map.empty] c
  show ?thesis by simp
qed

text \<open>
  A single successful response, delivered to a callback that throws when it is handed the
  routes: the callback is called twice.
\<close>

theorem route_callback_called_twice:
  "calls (route_run sample_options throws_on_success [] default_routing_options
     [TransportCompletes (Loaded (Inr response_ok))] (route_start Map.empty)) =
   [(None, Some []),
    (Some \<lparr>status = StatusNumber (- 3), message = Some (ToString CallbackThrew)\<rparr>, None)]"
  by (simp add: route_run_def on_response_def route_start_def response_ok_def routeDone_def
      saveHintData_def invoke_def throws_on_success_def Let_def)

section \<open>Stale responses\<close>

lemma control_route_count:
  "requestCount (fst (control_route options isReady wps handle c)) = requestCount c + 1"
  by (auto simp: control_route_def Let_def split: option.splits bool.splits prod.splits)

lemma control_route_request:
  "snd (control_route options isReady wps handle c) = Some r \<Longrightarrow>
   req_ts r = requestCount c + 1 \<and> req_options r = options"
  by (auto simp: control_route_def Let_def split: option.splits bool.splits prod.splits if_splits)

lemma control_callback_count:
  "requestCount (snd (control_callback r err found c)) = requestCount c"
  by (auto simp: control_callback_def Let_def split: option.splits)

lemma stale_discarded:
  "\<not> has_callback (req_options r) \<Longrightarrow> req_ts r \<noteq> requestCount c \<Longrightarrow>
   control_callback r err found c = (None, c\<lparr>pendingRequest := None\<rparr>)"
  by (simp add: control_callback_def Let_def)

lemma fresh_applied:
  "\<not> has_callback (req_options r) \<Longrightarrow> req_ts r = requestCount c \<Longrightarrow>
   \<exists>rest. control_log (snd (control_callback r err found c)) =
            control_log c @ ClearLines # ClearAlts # rest"
  by (auto simp: control_callback_def Let_def split: option.splits)

lemma callback_always_called:
  "has_callback (req_options r) \<Longrightarrow>
   control_callback r err found c =
     (None, c\<lparr>pendingRequest := None,
               control_log := control_log c @ [OptionsCallback (req_ts r) err found]\<rparr>)"
  by (simp add: control_callback_def Let_def)

text \<open>
  C3, as the code has it. Every call of \<open>route\<close> increases the counter by one and tags
  the request it issues with the new value. For a request issued without
  \<open>options.callback\<close>, the callback applies the result (clearing the lines, then the
  routes or the error) when the tag is the current counter, and otherwise changes nothing
  but the stored handle. A request issued with \<open>options.callback\<close> hands every result to
  that callback, whatever the counter: the comparison is never reached. So when A is
  issued without a callback and B is issued before A resolves, A's result is not applied,
  whether A resolves before or after B.
\<close>

theorem route_stale_suppression:
  "requestCount (fst (control_route options isReady wps handle c)) = requestCount c + 1 \<and>
   (\<forall>r. snd (control_route options isReady wps handle c) = Some r \<longrightarrow>
      req_ts r = requestCount c + 1) \<and>
   (\<not> has_callback (req_options r) \<and> req_ts r \<noteq> requestCount c \<longrightarrow>
      control_callback r err found c = (None, c\<lparr>pendingRequest := None\<rparr>)) \<and>
   (\<not> has_callback (req_options r) \<and> req_ts r = requestCount c \<longrightarrow>
      (\<exists>rest. control_log (snd (control_callback r err found c)) =
               control_log c @ ClearLines # ClearAlts # rest)) \<and>
   (has_callback (req_options r) \<longrightarrow>
      control_callback r err found c =
        (None, c\<lparr>pendingRequest := None,
                  control_log := control_log c @ [OptionsCallback (req_ts r) err found]\<rparr>)) \<and>
   (\<forall>a c1 c2 c3.
      \<not> has_callback optionsA \<and>
      control_route optionsA readyA wpsA handleA c = (c1, Some a) \<and>
      fst (control_route optionsB readyB wpsB handleB c1) = c2 \<and>
      snd (control_callback b errB foundB c2) = c3 \<longrightarrow>
        control_callback a errA foundA c2 = (None, c2\<lparr>pendingRequest := None\<rparr>) \<and>
        control_callback a errA foundA c3 = (None, c3\<lparr>pendingRequest := None\<rparr>))"
proof (intro conjI allI impI)
  show "requestCount (fst (control_route options isReady wps handle c)) = requestCount c + 1"
    by (rule control_route_count)
next
  fix r assume "snd (control_route options isReady wps handle c) = Some r"
  then show "req_ts r = requestCount c + 1"
    using control_route_request by blast
next
  assume "\<not> has_callback (req_options r) \<and> req_ts r \<noteq> requestCount c"
  then show "control_callback r err found c = (None, c\<lparr>pendingRequest := None\<rparr>)"
    by (simp add: stale_discarded)
next
  assume "\<not> has_callback (req_options r) \<and> req_ts r = requestCount c"
  then show "\<exists>rest. control_log (snd (control_callback r err found c)) =
               control_log c @ ClearLines # ClearAlts # rest"
    by (simp add: fresh_applied)
next
  assume "has_callback (req_options r)"
  then show "control_callback r err found c =
        (None, c\<lparr>pendingRequest := None,
                  control_log := control_log c @ [OptionsCallback (req_ts r) err found]\<rparr>)"
    by (rule callback_always_called)
next
  fix a c1 c2 c3
  assume h: "\<not> has_callback optionsA \<and>
      control_route optionsA readyA wpsA handleA c = (c1, Some a) \<and>
      fst (control_route optionsB readyB wpsB handleB c1) = c2 \<and>
      snd (control_callback b errB foundB c2) = c3"
  then have a: "req_ts a = requestCount c + 1" "req_options a = optionsA"
    using control_route_request[of optionsA readyA wpsA handleA c a] by simp_all
  have c1: "requestCount c1 = requestCount c + 1"
    using h control_route_count[of optionsA readyA wpsA handleA c] by simp
  have c2: "requestCount c2 = requestCount c + 2"
    using h c1 control_route_count[of optionsB readyB wpsB handleB c1] by simp
  have c3: "requestCount c3 = requestCount c + 2"
    using h c2 control_callback_count[of b errB foundB c2] by simp
  show "control_callback a errA foundA c2 = (None, c2\<lparr>pendingRequest := None\<rparr>)"
    using a c2 h by (simp add: stale_discarded)
  show "control_callback a errA foundA c3 = (None, c3\<lparr>pendingRequest := None\<rparr>)"
    using a c3 h by (simp add: stale_discarded)
qed

theorem route_stale_suppression_witness:
  "control_log (snd (control_callback (request_A plain_options) None (Some [7])
       (fst (control_route plain_options True [wp_A, wp_B] (Some False)
          (fst (control_route plain_options True [wp_A, wp_B] (Some False) control_init)))))) =
     [RoutingStart [wp_A, wp_B], RoutingStart [wp_A, wp_B]] \<and>
   control_log (snd (control_callback (request_A plain_options) None (Some [7])
       (fst (control_route plain_options True [wp_A, wp_B] (Some False) control_init)))) =
     [RoutingStart [wp_A, wp_B], ClearLines, ClearAlts,
      RoutesFound [wp_A, wp_B] [(0, 7)], SetAlternatives [(0, 7)]] \<and>
   control_log (snd (control_callback (request_A drag_options)
       (Some \<lparr>error_type = None, error_status = StatusNumber (- 1)\<rparr>) None
       (fst (control_route plain_options True [wp_A, wp_B] (Some False)
          (fst (control_route plain_options True [wp_A, wp_B] (Some False) control_init)))))) =
     [RoutingStart [wp_A, wp_B], RoutingStart [wp_A, wp_B],
      OptionsCallback 1 (Some \<lparr>error_type = None, error_status = StatusNumber (- 1)\<rparr>) None]"
proof -
  let ?c1 = "fst (control_route plain_options True [wp_A, wp_B] (Some False) control_init)"
  let ?c2 = "fst (control_route plain_options True [wp_A, wp_B] (Some False) ?c1)"
  have i: "control_route plain_options True [wp_A, wp_B] (Some False) control_init =
        (?c1, Some (request_A plain_options))"
    by (simp add: control_route_def control_init_def request_A_def plain_options_def Let_def)
  have n: "\<not> has_callback plain_options" by (simp add: plain_options_def)
  have l2: "control_log ?c2 = [RoutingStart [wp_A, wp_B], RoutingStart [wp_A, wp_B]]"
    by (simp add: control_route_def control_init_def plain_options_def Let_def)
  from route_stale_suppression[where c = control_init and optionsA = plain_options
      and readyA = True and wpsA = "[wp_A, wp_B]" and handleA = "Some False"
      and optionsB = plain_options and readyB = True and wpsB = "[wp_A, wp_B]"
      and handleB = "Some False" and errA = None and foundA = "Some [7]"] i n
  have "control_callback (request_A plain_options) None (Some [7]) ?c2 =
          (None, ?c2\<lparr>pendingRequest := None\<rparr>)"
    by blast
  with l2 have stale: "control_log (snd (control_callback (request_A plain_options) None (Some [7]) ?c2)) =
     [RoutingStart [wp_A, wp_B], RoutingStart [wp_A, wp_B]]"
    by simp
  have fresh: "control_log (snd (control_callback (request_A plain_options) None (Some [7]) ?c1)) =
     [RoutingStart [wp_A, wp_B], ClearLines, ClearAlts,
      RoutesFound [wp_A, wp_B] [(0, 7)], SetAlternatives [(0, 7)]]"
    by (simp add: control_callback_def control_route_def control_init_def request_A_def
        plain_options_def Let_def)
  have "has_callback (req_options (request_A drag_options))"
    by (simp add: request_A_def drag_options_def)
  with route_stale_suppression[where r = "request_A drag_options" and c = ?c2
      and err = "Some \<lparr>error_type = None, error_status = StatusNumber (- 1)\<rparr>"
      and found = None]
  have "control_callback (request_A drag_options)
          (Some \<lparr>error_type = None, error_status = StatusNumber (- 1)\<rparr>) None ?c2 =
        (None, ?c2\<lparr>pendingRequest := None,
                  control_log := control_log ?c2 @
                    [OptionsCallback (req_ts (request_A drag_options))
                       (Some \<lparr>error_type = None, error_status = StatusNumber (- 1)\<rparr>) None]\<rparr>)"
    by blast
  with l2 have called: "control_log (snd (control_callback (request_A drag_options)
       (Some \<lparr>error_type = None, error_status = StatusNumber (- 1)\<rparr>) None ?c2)) =
     [RoutingStart [wp_A, wp_B], RoutingStart [wp_A, wp_B],
      OptionsCallback 1 (Some \<lparr>error_type = None, error_status = StatusNumber (- 1)\<rparr>) None]"
    by (simp add: request_A_def)
  from stale fresh called show ?thesis by simp
qed

text \<open>
  The request A is issued with \<open>options.callback\<close>, then B is issued; when A resolves,
  its stale result is handed to the callback.
\<close>

theorem route_stale_result_reaches_callback:
  "snd (control_route drag_options True [wp_A, wp_B] (Some False) control_init) =
     Some (request_A drag_options) \<and>
   requestCount control_after_B = 2 \<and>
   control_log (snd (control_callback (request_A drag_options) None (Some [7]) control_after_B)) =
     control_log control_after_B @ [OptionsCallback 1 None (Some [7])]"
  by (simp add: control_callback_def control_route_def control_after_B_def control_init_def
      request_A_def drag_options_def plain_options_def Let_def)

section \<open>Roundabouts and rotaries\<close>

lemma read_property_object:
  "read_property rt (Data (JObj kvs)) k =
     Inr (if k \<in> fst ` set kvs then Data (own (JObj kvs) k) else object_prototype_member k)"
proof (cases "map_of kvs k")
  case None
  then have "k \<notin> fst ` set kvs" by (simp add: map_of_eq_None_iff)
  with None show ?thesis by simp
next
  case (Some w)
  then have "k \<in> fst ` set kvs" by (metis map_of_eq_None_iff option.distinct(1))
  with Some show ?thesis by simp
qed

lemma keys_object:
  "set (object_keys w) = insert k S \<Longrightarrow> \<exists>kvs. w = JObj kvs \<and> fst ` set kvs = insert k S"
  by (cases w) auto

lemma own_object:
  "own v k = JObj kvs' \<Longrightarrow> \<exists>kvs. v = JObj kvs \<and> k \<in> fst ` set kvs"
proof (cases v)
  case (JObj kvs)
  assume "own v k = JObj kvs'"
  with JObj have "map_of kvs k \<noteq> None" by (auto split: option.splits)
  then have "k \<in> fst ` set kvs" by (simp add: map_of_eq_None_iff)
  with JObj show ?thesis by simp
qed simp_all

lemma read_path_two:
  assumes a: "own v a = JObj kvsA"
  shows "read_path rt (Data v) [a, k] =
     Inr (if k \<in> fst ` set kvsA then Data (own (own v a) k) else object_prototype_member k)"
proof -
  from own_object[OF a] obtain kvs where V: "v = JObj kvs" and i: "a \<in> fst ` set kvs"
    by blast
  have r1: "read_property rt (Data v) a = Inr (Data (own v a))"
    unfolding V read_property_object using i by (simp del: own.simps)
  have r2: "read_property rt (Data (own v a)) k =
     Inr (if k \<in> fst ` set kvsA then Data (own (own v a) k) else object_prototype_member k)"
    unfolding a read_property_object by (rule refl)
  show ?thesis
    by (simp add: r1 r2 del: read_property.simps own.simps)
qed

lemma object_prototype_member_truthy:
  "truthy_val (object_prototype_member k) \<Longrightarrow>
   k \<in> set object_prototype_keys \<and> object_prototype_member k = Builtin k"
  by (auto simp: object_prototype_member_def split: if_splits)

text \<open>
  The \<open>if\<close> chain of the code, as an order of preference: \<open>name_exit\<close>, \<open>name\<close>,
  \<open>exit\<close>; it holds for every phrase set whose four variants can be read.
\<close>

lemma rotary_variant_code_order:
  assumes "\<forall>k \<in> {''name_exit'', ''name'', ''exit'', ''default''}. \<exists>v. read_property rt io k = Inr v"
  shows "rotary_variant rt st io = read_property rt io (first_available rt io (code_preference st))"
proof -
  from assms obtain ne n e d where
    r: "read_property rt io ''name_exit'' = Inr ne" "read_property rt io ''name'' = Inr n"
       "read_property rt io ''exit'' = Inr e" "read_property rt io ''default'' = Inr d"
    by auto
  show ?thesis
    by (simp add: rotary_variant_def rotary_from_name_def rotary_from_exit_def bind_err_def
        code_preference_def available_def r)
qed

text \<open>
  The two orders differ only on a phrase set that has the variants \<open>name\<close> and
  \<open>exit\<close> and lacks \<open>name_exit\<close>.
\<close>

lemma preference_orders_agree:
  "\<not> (available rt io ''name'' \<and> available rt io ''exit'' \<and> \<not> available rt io ''name_exit'') \<Longrightarrow>
   first_available rt io (code_preference st) = first_available rt io (claimed_preference st)"
  by (auto simp: code_preference_def claimed_preference_def)

lemma variant_not_inherited:
  "k \<in> {''name_exit'', ''name'', ''exit'', ''default''} \<Longrightarrow> object_prototype_member k = Data JUndef"
  by (auto simp: object_prototype_member_def object_prototype_keys_def)

lemma available_object:
  "k \<in> {''name_exit'', ''name'', ''exit'', ''default''} \<Longrightarrow>
   available rt (Data (JObj kvs)) k = (k \<in> fst ` set kvs \<and> truthy (own (JObj kvs) k))"
  unfolding available_def read_property_object
  using variant_not_inherited[of k] by simp

lemma object_follows_claimed_order:
  assumes "''exit'' \<notin> fst ` set kvs \<or> ''name'' \<notin> fst ` set kvs \<or>
           (''name_exit'' \<in> fst ` set kvs \<and> truthy (own (JObj kvs) ''name_exit''))"
  shows "rotary_variant rt st (Data (JObj kvs)) =
         read_property rt (Data (JObj kvs))
           (first_available rt (Data (JObj kvs)) (claimed_preference st))"
proof -
  have "rotary_variant rt st (Data (JObj kvs)) =
        read_property rt (Data (JObj kvs))
          (first_available rt (Data (JObj kvs)) (code_preference st))"
    by (rule rotary_variant_code_order) (simp add: read_property_object)
  moreover have "first_available rt (Data (JObj kvs)) (code_preference st) =
                 first_available rt (Data (JObj kvs)) (claimed_preference st)"
    by (rule preference_orders_agree) (use assms in \<open>auto simp: available_object\<close>)
  ultimately show ?thesis by simp
qed

lemma inherited_follows_claimed_order:
  assumes "inherited_members_have_no_variants rt" and "b \<in> set object_prototype_keys"
  shows "rotary_variant rt st (Builtin b) =
         read_property rt (Builtin b) (first_available rt (Builtin b) (claimed_preference st))"
proof -
  from assms have a: "rt (Builtin b) ''name_exit'' = Inr (Data JUndef) \<and>
      rt (Builtin b) ''exit'' = Inr (Data JUndef) \<and>
      rt (Builtin b) ''default'' = Inr (Data JUndef) \<and>
      (case rt (Builtin b) ''name'' of Inl e \<Rightarrow> False | Inr n \<Rightarrow> True)"
    unfolding inherited_members_have_no_variants_def by blast
  then have "\<exists>n. rt (Builtin b) ''name'' = Inr n"
    by (cases "rt (Builtin b) ''name''") simp_all
  with a have r: "rt (Builtin b) ''name_exit'' = Inr (Data JUndef)"
      "rt (Builtin b) ''exit'' = Inr (Data JUndef)"
      "rt (Builtin b) ''default'' = Inr (Data JUndef)"
      "\<exists>n. rt (Builtin b) ''name'' = Inr n"
    by simp_all
  have "rotary_variant rt st (Builtin b) =
        read_property rt (Builtin b) (first_available rt (Builtin b) (code_preference st))"
    by (rule rotary_variant_code_order) (use r in auto)
  moreover have "first_available rt (Builtin b) (code_preference st) =
                 first_available rt (Builtin b) (claimed_preference st)"
    by (rule preference_orders_agree) (simp add: available_def r)
  ultimately show ?thesis by simp
qed

text \<open>What \<open>select_instructionObject\<close> has read when it returns.\<close>

lemma select_instructionObject_returns:
  assumes "read_path rt (Data table) [language, version] = Inr v"
    and "select_instructionObject rt table version language st = Inr (type, io)"
  shows "\<exists>m known byMode.
      maneuver st = Some m \<and>
      read_property rt v (the (mtype m)) = Inr known \<and>
      type = (if truthy_val known then the (mtype m) else ''turn'') \<and>
      read_path rt v [''modes'', key_of (mode st)] = Inr byMode \<and>
      (if truthy_val byMode then io = byMode
       else (\<exists>byModifier. read_path rt v [type, key_of (modifier m)] = Inr byModifier \<and>
               (io = byModifier \<and> truthy_val byModifier \<or>
                read_path rt v [type, ''default''] = Inr io)))"
proof -
  from assms(2) obtain m where m: "maneuver st = Some m"
    by (cases "maneuver st") (auto simp: select_instructionObject_def split: if_splits)
  have s: "bind_err (read_property rt v (the (mtype m))) (\<lambda>known.
            let type = (if truthy_val known then the (mtype m) else ''turn'') in
            bind_err (read_path rt v [''modes'', key_of (mode st)]) (\<lambda>byMode.
            if truthy_val byMode then Inr (type, byMode)
            else
              let omitSide = (type = ''off ramp'' \<and>
                                indexOf_found (key_of (modifier m)) (key_of (driving_side st))) in
              bind_err (read_path rt v [type, key_of (modifier m)]) (\<lambda>byModifier.
              if truthy_val byModifier \<and> \<not> omitSide then Inr (type, byModifier)
              else bind_err (read_path rt v [type, ''default'']) (\<lambda>d. Inr (type, d))))) =
           Inr (type, io)"
    using assms m
    by (simp add: select_instructionObject_def bind_err_def del: read_path.simps split: if_splits)
  then obtain known where k: "read_property rt v (the (mtype m)) = Inr known"
    by (cases "read_property rt v (the (mtype m))") (auto simp: bind_err_def)
  let ?type = "if truthy_val known then the (mtype m) else ''turn''"
  from s k obtain byMode where bm: "read_path rt v [''modes'', key_of (mode st)] = Inr byMode"
    by (cases "read_path rt v [''modes'', key_of (mode st)]")
       (auto simp: bind_err_def Let_def simp del: read_path.simps)
  show ?thesis
  proof (cases "truthy_val byMode")
    case True
    with s k bm have "type = ?type \<and> io = byMode"
      by (simp add: bind_err_def Let_def del: read_path.simps)
    with m k bm True show ?thesis by (simp del: read_path.simps)
  next
    case False
    with s k bm obtain byModifier where
      md: "read_path rt v [?type, key_of (modifier m)] = Inr byModifier"
      by (cases "read_path rt v [?type, key_of (modifier m)]")
         (auto simp: bind_err_def Let_def simp del: read_path.simps)
    from s k bm False md have "type = ?type \<and>
        (io = byModifier \<and> truthy_val byModifier \<or> read_path rt v [?type, ''default''] = Inr io)"
      by (cases "read_path rt v [?type, ''default'']")
         (auto simp: bind_err_def Let_def simp del: read_path.simps split: if_splits)
    with m k bm False md show ?thesis by (auto simp del: read_path.simps)
  qed
qed

text \<open>
  The reads of \<open>compile\<close> for a rotary or roundabout step, with the phrase sets
  of the bundle.
\<close>

lemma bundled_reads:
  assumes shape: "phrase_sets_as_bundled v"
    and ty: "type = ''rotary'' \<or> type = ''roundabout''"
  shows "read_property rt (Data v) type = Inr (Data (own v type))"
    and "truthy (own v type)"
    and "read_path rt (Data v) [''modes'', k] =
      Inr (if k = ''ferry'' then Data (own (own v ''modes'') ''ferry'')
           else object_prototype_member k)"
    and "read_path rt (Data v) [type, k] =
      Inr (if k = ''default'' then Data (own (own v type) ''default'')
           else object_prototype_member k)"
proof -
  from shape have km: "set (object_keys (own v ''modes'')) = {''ferry''}"
    by (simp add: phrase_sets_as_bundled_def keys_at_def)
  from keys_object[OF km]
  obtain kvsM where M: "own v ''modes'' = JObj kvsM" and kM: "fst ` set kvsM = {''ferry''}"
    by blast
  from shape have "set (object_keys (own v ''rotary'')) = {''default''}"
    and "set (object_keys (own v ''roundabout'')) = {''default''}"
    by (simp_all add: phrase_sets_as_bundled_def keys_at_def)
  with ty have kt: "set (object_keys (own v type)) = {''default''}"
    by (elim disjE) simp_all
  from keys_object[OF kt]
  obtain kvsT where T: "own v type = JObj kvsT" and kT: "fst ` set kvsT = {''default''}"
    by blast
  from own_object[OF T] obtain kvs where V: "v = JObj kvs" and i: "type \<in> fst ` set kvs"
    by blast
  show "read_property rt (Data v) type = Inr (Data (own v type))"
    unfolding V read_property_object using i by (simp del: own.simps)
  show "truthy (own v type)" unfolding T by simp
  show "read_path rt (Data v) [''modes'', k] =
      Inr (if k = ''ferry'' then Data (own (own v ''modes'') ''ferry'')
           else object_prototype_member k)"
    unfolding read_path_two[OF M] kM by (cases "k = ''ferry''") simp_all
  show "read_path rt (Data v) [type, k] =
      Inr (if k = ''default'' then Data (own (own v type) ''default'')
           else object_prototype_member k)"
    unfolding read_path_two[OF T] kT by (cases "k = ''default''") simp_all
qed

text \<open>
  Such a step, if it has a modifier, gets a phrase set: the ferry phrases, the
  \<open>default\<close> entry of its type, or an inherited member.
\<close>

lemma select_rotary_returns:
  assumes shape: "phrase_sets_as_bundled v"
    and v: "read_path rt (Data table) [language, version] = Inr (Data v)"
    and lang: "language \<in> set supportedCodes"
    and m: "maneuver st = Some m" "mtype m = Some type" "truthy_string (modifier m)"
    and ty: "type = ''rotary'' \<or> type = ''roundabout''"
  shows "\<exists>io. select_instructionObject rt table version language st = Inr (type, io)"
proof -
  note r = bundled_reads[OF shape ty]
  from lang have l: "language \<noteq> []" by (auto simp: supportedCodes_def)
  from ty m(2) have t: "truthy_string (mtype m)" "the (mtype m) = type" "type \<noteq> ''off ramp''"
    by (auto simp: truthy_string_def)
  let ?byMode = "if key_of (mode st) = ''ferry'' then Data (own (own v ''modes'') ''ferry'')
                 else object_prototype_member (key_of (mode st))"
  let ?byModifier = "if key_of (modifier m) = ''default'' then Data (own (own v type) ''default'')
                     else object_prototype_member (key_of (modifier m))"
  have "select_instructionObject rt table version language st =
      (if truthy_val ?byMode then Inr (type, ?byMode)
       else if truthy_val ?byModifier then Inr (type, ?byModifier)
       else Inr (type, Data (own (own v type) ''default'')))"
    using l lang m t v r(1,2)
    by (simp add: select_instructionObject_def bind_err_def r(3,4)
        del: read_path.simps read_property.simps own.simps)
  then show ?thesis by (cases "truthy_val ?byMode"; cases "truthy_val ?byModifier") simp_all
qed

lemma select_rotary_phrase_set:
  assumes shape: "phrase_sets_as_bundled v"
    and v: "read_path rt (Data table) [language, version] = Inr (Data v)"
    and sel: "select_instructionObject rt table version language st = Inr (type, io)"
    and ty: "type = ''rotary'' \<or> type = ''roundabout''"
  shows "io = Data (own (own v ''modes'') ''ferry'') \<or>
         io = Data (own (own v type) ''default'') \<or>
         (\<exists>b \<in> set object_prototype_keys. io = Builtin b)"
proof -
  note r = bundled_reads[OF shape ty]
  note rm = r(3) and rt = r(4)
  from select_instructionObject_returns[OF v sel] obtain m known byMode where
    f: "maneuver st = Some m \<and>
      read_property rt (Data v) (the (mtype m)) = Inr known \<and>
      type = (if truthy_val known then the (mtype m) else ''turn'') \<and>
      read_path rt (Data v) [''modes'', key_of (mode st)] = Inr byMode \<and>
      (if truthy_val byMode then io = byMode
       else (\<exists>byModifier. read_path rt (Data v) [type, key_of (modifier m)] = Inr byModifier \<and>
               (io = byModifier \<and> truthy_val byModifier \<or>
                read_path rt (Data v) [type, ''default''] = Inr io)))"
    by (elim exE) (rule that)
  note bm = f[THEN conjunct2, THEN conjunct2, THEN conjunct2, THEN conjunct1]
  note c = f[THEN conjunct2, THEN conjunct2, THEN conjunct2, THEN conjunct2]
  show ?thesis
  proof (cases "truthy_val byMode")
    case True
    with c have "io = byMode" by simp
    with bm rm[where k = "key_of (mode st)" and rt = rt] True object_prototype_member_truthy[of "key_of (mode st)"]
    show ?thesis by (auto split: if_splits)
  next
    case False
    with c obtain byModifier where
      md: "read_path rt (Data v) [type, key_of (modifier m)] = Inr byModifier"
      and d: "io = byModifier \<and> truthy_val byModifier \<or>
              read_path rt (Data v) [type, ''default''] = Inr io"
      by auto
    from d show ?thesis
    proof
      assume "io = byModifier \<and> truthy_val byModifier"
      with md rt[where k = "key_of (modifier m)" and rt = rt] object_prototype_member_truthy[of "key_of (modifier m)"]
      show ?thesis by (auto split: if_splits)
    next
      assume "read_path rt (Data v) [type, ''default''] = Inr io"
      with rt[where k = "''default''" and rt = rt] show ?thesis by simp
    qed
  qed
qed

text \<open>
  C9. For every \<open>rotary\<close> or \<open>roundabout\<close> step that has a modifier, in a
  supported language and with the phrase sets of the bundled tables, the compiler gets
  a phrase set and replaces it by one of its four variants: the first that applies in
  the order named and numbered (\<open>name_exit\<close>), exit number only (\<open>exit\<close>), named
  only (\<open>name\<close>), else the generic \<open>default\<close>. The \<open>if\<close> chain of the code
  tests \<open>name\<close> before \<open>exit\<close>; no phrase set that such a step can reach has
  both of these variants without having \<open>name_exit\<close>, so the choice is the same.
\<close>

theorem rotary_variant_preference:
  assumes "inherited_members_have_no_variants rt"
    and "phrase_sets_as_bundled v"
    and "read_path rt (Data table) [language, version] = Inr (Data v)"
    and "language \<in> set supportedCodes"
    and "maneuver st = Some m" and "mtype m = Some type" and "truthy_string (modifier m)"
    and "type = ''rotary'' \<or> type = ''roundabout''"
  shows "\<exists>io. select_instructionObject rt table version language st = Inr (type, io) \<and>
           compile_instructionObject rt table version language st =
             bind_err (read_property rt io (first_available rt io (claimed_preference st)))
               (\<lambda>variant. Inr (variant, Data JUndef))"
proof -
  from select_rotary_returns[OF assms(2,3,4,5,6,7,8)] obtain io where
    sel: "select_instructionObject rt table version language st = Inr (type, io)"
    by blast
  have c: "compile_instructionObject rt table version language st =
           bind_err (rotary_variant rt st io) (\<lambda>variant. Inr (variant, Data JUndef))"
    using sel assms(8) by (auto simp: compile_instructionObject_def special_case_def bind_err_def)
  have "rotary_variant rt st io =
        read_property rt io (first_available rt io (claimed_preference st))"
  proof -
    from select_rotary_phrase_set[OF assms(2,3) sel assms(8)]
    consider "io = Data (own (own v ''modes'') ''ferry'')"
      | "io = Data (own (own v type) ''default'')"
      | b where "b \<in> set object_prototype_keys" "io = Builtin b"
      by blast
    then show ?thesis
    proof cases
      case 1
      from assms(2) have "set (object_keys (own (own v ''modes'') ''ferry'')) =
          {''default'', ''name'', ''destination''}"
        by (simp add: phrase_sets_as_bundled_def keys_at_def)
      from keys_object[OF this]
      obtain kvs where o: "own (own v ''modes'') ''ferry'' = JObj kvs"
        and k: "fst ` set kvs = {''default'', ''name'', ''destination''}"
        by blast
      have "''exit'' \<notin> fst ` set kvs" unfolding k by simp
      then show ?thesis unfolding 1 o by (intro object_follows_claimed_order) simp
    next
      case 2
      from assms(8) show ?thesis
      proof
        assume t: "type = ''rotary''"
        from assms(2) have kd: "set (object_keys (own (own v ''rotary'') ''default'')) =
            {''default'', ''name'', ''exit'', ''name_exit''}"
          and ne: "set (object_keys (own (own (own v ''rotary'') ''default'') ''name_exit'')) =
            {''default'', ''name'', ''destination''}"
          by (simp_all add: phrase_sets_as_bundled_def keys_at_def)
        from keys_object[OF kd]
        obtain kvs where o: "own (own v ''rotary'') ''default'' = JObj kvs"
          and k: "fst ` set kvs = {''default'', ''name'', ''exit'', ''name_exit''}"
          by blast
        from keys_object[OF ne]
        obtain kvsN where "own (own (own v ''rotary'') ''default'') ''name_exit'' = JObj kvsN"
          by blast
        then have tr: "truthy (own (JObj kvs) ''name_exit'')" using o by simp
        have "''name_exit'' \<in> fst ` set kvs" unfolding k by simp
        with tr show ?thesis unfolding 2 t o by (intro object_follows_claimed_order) simp
      next
        assume t: "type = ''roundabout''"
        from assms(2) have "set (object_keys (own (own v ''roundabout'') ''default'')) =
            {''exit'', ''default''}"
          by (simp add: phrase_sets_as_bundled_def keys_at_def)
        from keys_object[OF this]
        obtain kvs where o: "own (own v ''roundabout'') ''default'' = JObj kvs"
          and k: "fst ` set kvs = {''exit'', ''default''}"
          by blast
        have "''name'' \<notin> fst ` set kvs" unfolding k by simp
        then show ?thesis unfolding 2 t o by (intro object_follows_claimed_order) simp
      qed
    next
      case 3
      with assms(1) show ?thesis by (simp add: inherited_follows_claimed_order)
    qed
  qed
  with c sel show ?thesis by simp
qed

theorem rotary_variant_preference_witness:
  "compile_instructionObject runtime_names instructions_en ''v5'' ''en''
       (step_rotary (Some ''Ring'') (Some 2)) =
     bind_err (read_path runtime_names (Data en_rotary) [''default'', ''name_exit''])
       (\<lambda>variant. Inr (variant, Data JUndef)) \<and>
   compile_instructionObject runtime_names instructions_en ''v5'' ''en''
       (step_rotary (Some ''Ring'') None) =
     bind_err (read_path runtime_names (Data en_rotary) [''default'', ''name''])
       (\<lambda>variant. Inr (variant, Data JUndef)) \<and>
   compile_instructionObject runtime_names instructions_en ''v5'' ''en''
       (step_rotary None (Some 2)) =
     bind_err (read_path runtime_names (Data en_rotary) [''default'', ''exit''])
       (\<lambda>variant. Inr (variant, Data JUndef)) \<and>
   compile_instructionObject runtime_names instructions_en ''v5'' ''en''
       (step_rotary None None) =
     bind_err (read_path runtime_names (Data en_rotary) [''default'', ''default''])
       (\<lambda>variant. Inr (variant, Data JUndef))"
proof -
  obtain d where d: "read_path runtime_names (Data en_rotary) [''default''] = Inr d"
    by (simp add: en_rotary_def)
  have rt: "inherited_members_have_no_variants runtime_names"
    by (simp add: inherited_members_have_no_variants_def runtime_names_def
        object_prototype_keys_def)
  have shape: "phrase_sets_as_bundled en_v5"
    by (simp add: phrase_sets_as_bundled_def keys_at_def en_v5_def en_rotary_def
        en_roundabout_def)
  have v: "read_path runtime_names (Data instructions_en) [''en'', ''v5''] = Inr (Data en_v5)"
    by (simp add: instructions_en_def)
  have l: "''en'' \<in> set supportedCodes" by (simp add: supportedCodes_def)
  have m1: "maneuver (step_rotary rn ex) =
             Some \<lparr>mtype = Some ''rotary'', modifier = Some ''right'', exit_number = ex,
                    bearing_after = Some 90\<rparr>" for rn ex
    by (simp add: step_rotary_def)
  have m2: "mtype \<lparr>mtype = Some ''rotary'', modifier = Some ''right'', exit_number = ex,
            bearing_after = Some 90\<rparr> = Some ''rotary''" for ex :: "int option"
    by simp
  have m3: "truthy_string (modifier \<lparr>mtype = Some ''rotary'', modifier = Some ''right'',
                               exit_number = ex, bearing_after = Some 90\<rparr>)"
    for ex :: "int option"
    by (simp add: truthy_string_def)
  have t: "''rotary'' = ''rotary'' \<or> ''rotary'' = ''roundabout''" by simp
  have sel: "select_instructionObject runtime_names instructions_en ''v5'' ''en''
               (step_rotary rn ex) = Inr (''rotary'', d)" for rn ex
    using d
    by (simp add: select_instructionObject_def supportedCodes_def instructions_en_def en_v5_def
        step_rotary_def truthy_string_def key_of_def bind_err_def en_rotary_def
        object_prototype_member_def object_prototype_keys_def)
  have c: "compile_instructionObject runtime_names instructions_en ''v5'' ''en''
             (step_rotary rn ex) =
           bind_err (read_property runtime_names d
                       (first_available runtime_names d (claimed_preference (step_rotary rn ex))))
             (\<lambda>variant. Inr (variant, Data JUndef))" for rn ex
    using rotary_variant_preference[OF rt shape v l m1[of rn ex] m2[of ex] m3[of ex] t] sel[of rn ex]
    by auto
  have k: "first_available runtime_names d
             (claimed_preference (step_rotary (Some ''Ring'') (Some 2))) = ''name_exit''"
    "first_available runtime_names d
             (claimed_preference (step_rotary (Some ''Ring'') None)) = ''name''"
    "first_available runtime_names d
             (claimed_preference (step_rotary None (Some 2))) = ''exit''"
    "first_available runtime_names d
             (claimed_preference (step_rotary None None)) = ''default''"
    using d
    by (auto simp: en_rotary_def claimed_preference_def available_def has_rotary_name_def
        has_exit_def step_rotary_def truthy_string_def)
  have p: "read_path runtime_names (Data en_rotary) [''default'', key] =
           read_property runtime_names d key" for key
    using d by (auto simp: en_rotary_def split: sum.splits)
  from c k p show ?thesis by simp
qed

section \<open>Token substitution\<close>

lemma grammarize_text:
  "grammarize env (TokString v) grammar = TokString (to_text env (grammarize env (TokString v) grammar))"
  by (simp add: grammarize_def to_text_def split: option.splits)

lemma replacement_plain:
  assumes "0 < offset \<or> \<not> capitalize env"
    and "tokens env tag \<noteq> None \<or> tag \<notin> set object_prototype_keys"
  shows "replacement env offset tag grammar =
     Inr (map_option (\<lambda>v. (plain_value env tag grammar v, False)) (tokens env tag))"
proof (cases "tokens env tag")
  case None
  with assms(2) show ?thesis by (simp add: replacement_def token_lookup_def)
next
  case (Some v)
  obtain w where w: "grammarize env (TokString v) grammar = TokString w"
    using grammarize_text by blast
  from assms(1) Some w show ?thesis
    by (auto simp: replacement_def token_lookup_def plain_value_def Let_def
        split: option.splits)
qed

lemma replace_tokens_plain:
  assumes "0 < offset \<or> \<not> capitalize env"
    and "\<forall>tag \<in> set (template_tags k s). tokens env tag \<noteq> None \<or> tag \<notin> set object_prototype_keys"
  shows "replace_tokens env offset k s = Inr (substitute env k s, False)"
  using assms
proof (induction k s arbitrary: offset rule: template_tags.induct)
  case (1 skip)
  then show ?case by simp
next
  case (2 k c cs)
  then show ?case by simp
next
  case (3 c cs)
  show ?case
  proof (cases "match_token (c # cs)")
    case None
    with 3(4) have "\<forall>tag \<in> set (template_tags 0 cs).
        tokens env tag \<noteq> None \<or> tag \<notin> set object_prototype_keys"
      by simp
    from 3(1)[OF None _ this, of "Suc offset"] None show ?thesis by simp
  next
    case (Some m)
    obtain tag grammar n where m: "m = (tag, grammar, n)" by (cases m)
    from 3(4) Some m have t: "tokens env tag \<noteq> None \<or> tag \<notin> set object_prototype_keys"
      and r: "\<forall>tag \<in> set (template_tags (n - 1) cs).
        tokens env tag \<noteq> None \<or> tag \<notin> set object_prototype_keys"
      by simp_all
    have ih: "replace_tokens env (Suc offset) (n - 1) cs = Inr (substitute env (n - 1) cs, False)"
      using 3(2)[OF Some m[symmetric] refl _ r, of "Suc offset"] by simp
    show ?thesis
      using Some m ih replacement_plain[OF 3(3) t, of grammar]
      by (auto split: option.splits)
  qed
qed

lemma replace_tokens_start_known:
  assumes "match_token s = Some (tag, grammar, n)" and "tokens env tag = Some v"
    and "capitalize env"
    and "\<forall>tag \<in> set (template_tags 0 s). tokens env tag \<noteq> None \<or> tag \<notin> set object_prototype_keys"
  shows "replace_tokens env 0 0 s =
     Inr ((case formatToken env of
             None \<Rightarrow> capitalizeFirstLetter (toLocaleUpperCase env)
                       (to_text env (grammarize env (TokString v) grammar))
           | Some f \<Rightarrow> f tag (TokString (capitalizeFirstLetter (toLocaleUpperCase env)
                                     (to_text env (grammarize env (TokString v) grammar)))))
          @ substitute env n s, True)"
proof -
  from assms(1) obtain c cs where s: "s = c # cs"
    by (cases s) (auto simp: match_token_def)
  from assms(1) have n: "0 < n"
    by (auto simp: match_token_def Let_def split: if_splits)
  from assms(1,4) s have "\<forall>tag \<in> set (template_tags (n - 1) cs).
      tokens env tag \<noteq> None \<or> tag \<notin> set object_prototype_keys"
    by simp
  then have r: "replace_tokens env (Suc 0) (n - 1) cs = Inr (substitute env (n - 1) cs, False)"
    by (intro replace_tokens_plain) simp_all
  have k: "substitute env n s = substitute env (n - 1) cs"
    using n s by (cases n) simp_all
  obtain w where w: "grammarize env (TokString v) grammar = TokString w"
    using grammarize_text by blast
  have "replacement env 0 tag grammar =
      Inr (Some ((case formatToken env of
                    None \<Rightarrow> capitalizeFirstLetter (toLocaleUpperCase env) w
                  | Some f \<Rightarrow> f tag (TokString (capitalizeFirstLetter (toLocaleUpperCase env) w))), True))"
    using assms(2,3) w
    by (simp add: replacement_def token_lookup_def capitalize_value_def to_text_def Let_def
        split: option.splits)
  then show ?thesis
    using assms(1) s r k w by (simp add: to_text_def cong: option.case_cong)
qed

lemma replace_tokens_start_other:
  assumes "\<not> (\<exists>tag grammar n v. match_token s = Some (tag, grammar, n) \<and> tokens env tag = Some v)"
    and "\<forall>tag \<in> set (template_tags 0 s). tokens env tag \<noteq> None \<or> tag \<notin> set object_prototype_keys"
  shows "replace_tokens env 0 0 s = Inr (substitute env 0 s, False)"
proof (cases s)
  case Nil
  then show ?thesis by simp
next
  case (Cons c cs)
  show ?thesis
  proof (cases "match_token s")
    case None
    with assms(2) Cons have "\<forall>tag \<in> set (template_tags 0 cs).
        tokens env tag \<noteq> None \<or> tag \<notin> set object_prototype_keys"
      by simp
    then have "replace_tokens env (Suc 0) 0 cs = Inr (substitute env 0 cs, False)"
      by (intro replace_tokens_plain) simp_all
    with None Cons show ?thesis by simp
  next
    case (Some m)
    obtain tag grammar n where m: "m = (tag, grammar, n)" by (cases m)
    with assms(1) Some have t: "tokens env tag = None" by (cases "tokens env tag") auto
    from assms(2) Cons Some m have p: "tag \<notin> set object_prototype_keys"
      and "\<forall>tag \<in> set (template_tags (n - 1) cs).
        tokens env tag \<noteq> None \<or> tag \<notin> set object_prototype_keys"
      using t by simp_all
    then have "replace_tokens env (Suc 0) (n - 1) cs = Inr (substitute env (n - 1) cs, False)"
      by (intro replace_tokens_plain) simp_all
    then show ?thesis
      using Cons Some m t p by (simp add: replacement_def token_lookup_def)
  qed
qed


lemma length_split_while: "length xs = length (takeWhile P xs) + length (dropWhile P xs)"
  by (metis length_append takeWhile_dropWhile_id)

lemma take1_length: "take 1 xs = [c] \<Longrightarrow> 0 < length xs"
  by (cases xs) auto

lemma match_token_unfold:
  "match_token s =
     (if take 1 s \<noteq> ''{'' then None
      else if takeWhile is_word_char (drop 1 s) = [] then None
      else if take 1 (dropWhile is_word_char (drop 1 s)) = ''}''
        then Some (takeWhile is_word_char (drop 1 s), None,
                   length (takeWhile is_word_char (drop 1 s)) + 2)
      else if take 1 (dropWhile is_word_char (drop 1 s)) = '':'' \<and>
              takeWhile is_word_char (drop 1 (dropWhile is_word_char (drop 1 s))) \<noteq> [] \<and>
              take 1 (dropWhile is_word_char (drop 1 (dropWhile is_word_char (drop 1 s)))) = ''}''
        then Some (takeWhile is_word_char (drop 1 s),
                   Some (takeWhile is_word_char (drop 1 (dropWhile is_word_char (drop 1 s)))),
                   length (takeWhile is_word_char (drop 1 s)) +
                   length (takeWhile is_word_char (drop 1 (dropWhile is_word_char (drop 1 s)))) + 3)
      else None)"
  unfolding match_token_def Let_def by (simp only: if_not_P if_P split: if_split) auto

lemma match_token_length:
  assumes "match_token s = Some (tag, grammar, n)"
  shows "0 < n \<and> n \<le> length s"
proof -
  let ?tag = "takeWhile is_word_char (drop 1 s)"
  let ?after = "dropWhile is_word_char (drop 1 s)"
  let ?g = "takeWhile is_word_char (drop 1 ?after)"
  let ?after_g = "dropWhile is_word_char (drop 1 ?after)"
  have s1: "take 1 s = ''{''"
    using assms unfolding match_token_unfold by (metis option.distinct(1))
  then have "0 < length s" by (rule take1_length)
  then have ls: "length s = 1 + length (drop 1 s)" by simp
  have l1: "length (drop 1 s) = length ?tag + length ?after"
    by (rule length_split_while)
  note [simp del] = length_drop
  show ?thesis
  proof (cases "take 1 ?after = ''}''")
    case True
    with assms s1 have "n = length ?tag + 2"
      unfolding match_token_unfold by (metis option.distinct(1) option.inject prod.inject)
    moreover have "0 < length ?after" using True by (rule take1_length)
    ultimately show ?thesis using ls l1 by linarith
  next
    case False
    with assms s1 have c: "take 1 ?after = '':''" and n: "n = length ?tag + length ?g + 3"
      and e: "take 1 ?after_g = ''}''"
      unfolding match_token_unfold by (metis option.distinct(1) option.inject prod.inject)+
    have "0 < length ?after" using c by (rule take1_length)
    then have la: "length ?after = 1 + length (drop 1 ?after)" by (simp add: length_drop)
    have l2: "length (drop 1 ?after) = length ?g + length ?after_g"
      by (rule length_split_while)
    have "0 < length ?after_g" using e by (rule take1_length)
    with n ls l1 la l2 show ?thesis by linarith
  qed
qed

lemma substitute_unknown:
  "(\<forall>tag. tokens env tag = None) \<Longrightarrow> substitute env k s = drop k s"
proof (induction env k s rule: substitute.induct)
  case (1 env skip)
  then show ?case by simp
next
  case (2 env k c cs)
  then show ?case by simp
next
  case (3 env c cs)
  show ?case
  proof (cases "match_token (c # cs)")
    case None
    with 3 show ?thesis by simp
  next
    case (Some m)
    obtain tag grammar n where m: "m = (tag, grammar, n)" by (cases m)
    from match_token_length[of "c # cs" tag grammar n] Some m
    have n: "0 < n" "n \<le> length (c # cs)" by simp_all
    then obtain j where j: "n = Suc j" by (cases n) auto
    have "substitute env (n - 1) cs = drop (n - 1) cs"
      using 3(2)[OF Some m[symmetric] refl] 3(3) by simp
    then show ?thesis
      using Some m 3(3) j by simp
  qed
qed

lemma tokenize_unfold:
  assumes "language \<noteq> []" and "path table [language, ''meta'', ''capitalizeFirstLetter''] = Inr cap"
  shows "tokenize table upper grammars member_text language instruction toks fmt =
     bind_err (replace_tokens (token_environment toks fmt (truthy cap) (upper language)
                                 (grammars language) member_text) 0 0 instruction)
       (\<lambda>r. Inr (if \<not> snd r \<and> truthy cap
                  then capitalizeFirstLetter (upper language) (collapse_spaces (fst r))
                  else collapse_spaces (fst r)))"
  using assms
  by (simp add: tokenize_def bind_err_def token_environment_def Let_def case_prod_beta
      del: path.simps split: sum.splits)

text \<open>
  What \<open>tokenize\<close> does with a template none of whose tags finds an inherited member
  (each tag is a property of the token object itself, or is not a key of
  \<open>Object.prototype\<close>), for a language that has a profile. It does not fail; its
  output is the plain substitution (known tokens replaced, unknown ones copied, so a
  template without known tokens is left as it is) with pairs of spaces collapsed, and the
  capital letter is placed as follows: when capitalisation is on and the template begins
  with a known token, the value of that token is capitalised and nothing else; when it is
  on and the template begins otherwise, the first letter of the whole output is
  capitalised; when it is off, nothing is capitalised.
\<close>

lemma tokenize_plain_templates:
  assumes "language \<noteq> []"
    and "path table [language, ''meta'', ''capitalizeFirstLetter''] = Inr cap"
    and "env = token_environment toks fmt (truthy cap) (upper language) (grammars language)
                 member_text"
    and "\<forall>tag \<in> set (template_tags 0 instruction).
           toks tag \<noteq> None \<or> tag \<notin> set object_prototype_keys"
  shows "(\<exists>out. tokenize table upper grammars member_text language instruction toks fmt = Inr out) \<and>
      (truthy cap \<and> match_token instruction = Some (tag, grammar, n) \<and> toks tag = Some v \<longrightarrow>
         tokenize table upper grammars member_text language instruction toks fmt =
           Inr (collapse_spaces
                  ((case fmt of
                      None \<Rightarrow> capitalizeFirstLetter (upper language)
                                (to_text env (grammarize env (TokString v) grammar))
                    | Some f \<Rightarrow>
                        f tag (TokString (capitalizeFirstLetter (upper language)
                                       (to_text env (grammarize env (TokString v) grammar)))))
                   @ substitute env n instruction))) \<and>
      (truthy cap \<and>
       \<not> (\<exists>tag grammar n v. match_token instruction = Some (tag, grammar, n) \<and> toks tag = Some v) \<longrightarrow>
         tokenize table upper grammars member_text language instruction toks fmt =
           Inr (capitalizeFirstLetter (upper language)
                  (collapse_spaces (substitute env 0 instruction)))) \<and>
      (\<not> truthy cap \<longrightarrow>
         tokenize table upper grammars member_text language instruction toks fmt =
           Inr (collapse_spaces (substitute env 0 instruction))) \<and>
      ((\<forall>tag. toks tag = None) \<longrightarrow> substitute env 0 instruction = instruction)"
proof (intro conjI impI)
  have u: "tokenize table upper grammars member_text language instruction toks fmt =
     bind_err (replace_tokens env 0 0 instruction)
       (\<lambda>r. Inr (if \<not> snd r \<and> truthy cap
                  then capitalizeFirstLetter (upper language) (collapse_spaces (fst r))
                  else collapse_spaces (fst r)))"
    using tokenize_unfold[OF assms(1,2)] assms(3) by simp
  have e: "tokens env = toks" "formatToken env = fmt" "capitalize env = truthy cap"
    "toLocaleUpperCase env = upper language"
    using assms(3) by (simp_all add: token_environment_def)
  have h: "\<forall>tag \<in> set (template_tags 0 instruction).
             tokens env tag \<noteq> None \<or> tag \<notin> set object_prototype_keys"
    using assms(4) e by simp
  show "\<exists>out. tokenize table upper grammars member_text language instruction toks fmt = Inr out"
  proof (cases "\<exists>tag grammar n v. match_token instruction = Some (tag, grammar, n) \<and>
                  tokens env tag = Some v")
    case False
    from replace_tokens_start_other[OF False h] u show ?thesis by (simp add: bind_err_def)
  next
    case True
    then obtain tg g k w where t: "match_token instruction = Some (tg, g, k)"
      "tokens env tg = Some w" by blast
    show ?thesis
    proof (cases "capitalize env")
      case True
      from replace_tokens_start_known[OF t True h] u show ?thesis by (simp add: bind_err_def)
    next
      case False
      then have "0 < (0::nat) \<or> \<not> capitalize env" by simp
      from replace_tokens_plain[OF this h] u show ?thesis by (simp add: bind_err_def)
    qed
  qed
  {
    assume a: "truthy cap \<and> match_token instruction = Some (tag, grammar, n) \<and> toks tag = Some v"
    then have "match_token instruction = Some (tag, grammar, n)" "tokens env tag = Some v"
      "capitalize env"
      using e by simp_all
    from replace_tokens_start_known[OF this h] e
    have "replace_tokens env 0 0 instruction =
       Inr ((case fmt of
           None \<Rightarrow> capitalizeFirstLetter (upper language)
                     (to_text env (grammarize env (TokString v) grammar))
         | Some f \<Rightarrow>
             f tag (TokString (capitalizeFirstLetter (upper language)
                            (to_text env (grammarize env (TokString v) grammar)))))
        @ substitute env n instruction, True)"
      by (simp cong: option.case_cong)
    then show "tokenize table upper grammars member_text language instruction toks fmt =
           Inr (collapse_spaces
                  ((case fmt of
                      None \<Rightarrow> capitalizeFirstLetter (upper language)
                                (to_text env (grammarize env (TokString v) grammar))
                    | Some f \<Rightarrow>
                        f tag (TokString (capitalizeFirstLetter (upper language)
                                       (to_text env (grammarize env (TokString v) grammar)))))
                   @ substitute env n instruction))"
      using u by (simp add: bind_err_def)
  }
  {
    assume a: "truthy cap \<and>
       \<not> (\<exists>tag grammar n v. match_token instruction = Some (tag, grammar, n) \<and> toks tag = Some v)"
    then have "\<not> (\<exists>tag grammar n v. match_token instruction = Some (tag, grammar, n) \<and>
                  tokens env tag = Some v)"
      using e by simp
    from replace_tokens_start_other[OF this h] a
    show "tokenize table upper grammars member_text language instruction toks fmt =
           Inr (capitalizeFirstLetter (upper language)
                  (collapse_spaces (substitute env 0 instruction)))"
      using u by (simp add: bind_err_def)
  }
  {
    assume "\<not> truthy cap"
    then have "0 < (0::nat) \<or> \<not> capitalize env" using e by simp
    from replace_tokens_plain[OF this h] \<open>\<not> truthy cap\<close>
    show "tokenize table upper grammars member_text language instruction toks fmt =
           Inr (collapse_spaces (substitute env 0 instruction))"
      using u by (simp add: bind_err_def)
  }
  {
    assume "\<forall>tag. toks tag = None"
    then have "\<forall>tag. tokens env tag = None" using e by simp
    from substitute_unknown[OF this, of 0 instruction]
    show "substitute env 0 instruction = instruction" by simp
  }
qed

text \<open>
  The example of the specification, an unknown token that is left as it is, and a tag
  that is the name of an inherited method in the middle of a template: the text of the
  function is substituted.
\<close>

lemma tokenize_examples:
  "tokenize instructions_en upper_ascii no_grammars native_text ''en''
      ''{modifier} onto {way_name}'' example_tokens None = Inr ''Left onto Main St'' \<and>
   tokenize instructions_en upper_ascii no_grammars native_text ''en''
      ''turn {modifier} at {junction_name}'' example_tokens None =
        Inr ''Turn left at {junction_name}'' \<and>
   tokenize instructions_uncapitalized upper_ascii no_grammars native_text ''zz''
      ''{modifier} onto {way_name}'' example_tokens None = Inr ''left onto Main St'' \<and>
   tokenize instructions_en upper_ascii no_grammars native_text ''en''
      ''go {toString}'' Map.empty None = Inr ''Go function toString() { [native code] }''"
  by (intro conjI; code_simp)



end
